theory Spec2Isabelle
  imports Main "HOL-Library.AList"
begin

section \<open>KernelCI API models: a shallow embedding of \<open>kernelci/api/models.py\<close>\<close>

subsection \<open>Enumerations\<close>

text \<open>
  \<open>StateValues\<close> and \<open>ResultValues\<close> are \<open>str\<close>-based enumerations: a member compares
  equal to its string value, which \<open>state_value\<close> and \<open>result_value\<close> give.
\<close>

datatype StateValues = RUNNING | AVAILABLE | CLOSING | DONE

fun state_value :: "StateValues \<Rightarrow> string" where
  "state_value RUNNING = ''running''"
| "state_value AVAILABLE = ''available''"
| "state_value CLOSING = ''closing''"
| "state_value DONE = ''done''"

datatype ResultValues = PASS | FAIL | SKIP | INCOMPLETE

fun result_value :: "ResultValues \<Rightarrow> string" where
  "result_value PASS = ''pass''"
| "result_value FAIL = ''fail''"
| "result_value SKIP = ''skip''"
| "result_value INCOMPLETE = ''incomplete''"

subsection \<open>Values\<close>

text \<open>
  A \<open>datetime\<close> is kept as its wall-clock reading in microseconds since
  0001-01-01T00:00:00 together with the UTC offset (in microseconds) of an aware value;
  a naive value has no offset. An \<open>ObjectId\<close> is kept as its canonical rendering.
\<close>

datatype datetime = Datetime (wall: int) (utcoffset: "int option")

datatype objectid = Oid string

text \<open>
  The Python values that the query translator receives and produces: strings, nested
  dictionaries, \<open>ObjectId\<close> instances and \<open>datetime\<close> instances. A dictionary is an
  association list in insertion order; \<open>d[k] = v\<close> is \<open>AList.update k v d\<close> (an existing
  key keeps its place, a new one goes last) and \<open>d.get(k)\<close> is \<open>map_of d k\<close>.
\<close>

datatype pyval =
    Str string
  | Dict "(string \<times> pyval) list"
  | ObjId objectid
  | DT datetime

type_synonym pydict = "(string \<times> pyval) list"

text \<open>Truth value of an object, as \<open>if x:\<close> tests it.\<close>

fun truthy :: "pyval \<Rightarrow> bool" where
  "truthy (Str s) = (s \<noteq> [])"
| "truthy (Dict d) = (d \<noteq> [])"
| "truthy (ObjId i) = True"
| "truthy (DT t) = True"

text \<open>\<open>if d.get(k):\<close> succeeds when the key is present with a truthy value.\<close>

definition get_truthy :: "pydict \<Rightarrow> string \<Rightarrow> pyval option" where
  "get_truthy d k =
     (case map_of d k of
        None \<Rightarrow> None
      | Some v \<Rightarrow> if truthy v then Some v else None)"

text \<open>\<open>d.update(pairs)\<close>: assigns the pairs in order.\<close>

fun dict_update :: "pydict \<Rightarrow> (string \<times> pyval) list \<Rightarrow> pydict" where
  "dict_update d [] = d"
| "dict_update d ((k, v) # ps) = dict_update (AList.update k v d) ps"

subsection \<open>Entity schema\<close>

text \<open>
  The models are records with the fields of the source, an optional field being an
  \<open>option\<close>. Several models declare fields of the same name; a selector is written with
  its record's name where that matters (\<open>KbuildData.arch\<close>, \<open>TestData.arch\<close>).
  The member \<open>NODE_TIMEOUT\<close> of \<open>CheckoutErrorCodes\<close> is written \<open>CHECKOUT_NODE_TIMEOUT\<close>,
  \<open>ErrorCodes\<close> having one of that name, and the field \<open>id\<close> is written \<open>node_id\<close>.
\<close>

datatype ErrorCodes =
    INVALID_JOB_PARAMS | SUBMIT_ERROR | NODE_TIMEOUT | INFRASTRUCTURE | CANCELED | JOB
  | BUG | TEST | CONFIGURATION | LAVA_TIMEOUT | MULTI_NODE_TIMEOUT | OBJECT_NOT_PERSISTED
  | UNEXISTING_PERMISSION_CODENAME | JOB_GENERATION_ERROR | KBUILD_INTERNAL_ERROR

datatype CheckoutErrorCodes = CHECKOUT_NODE_TIMEOUT | GIT_CHECKOUT_FAILURE

record KernelVersion =
  version :: int
  patchlevel :: int
  sublevel :: "int option"
  extra :: "string option"
  name :: "string option"

record Revision =
  tree :: string
  url :: string
  branch :: string
  commit :: string
  describe :: "string option"
  version :: "KernelVersion option"
  patchset :: "string option"
  commit_tags :: "string list"
  commit_message :: "string option"
  tip_of_branch :: "bool option"

record CheckoutData =
  kernel_revision :: "Revision option"
  error_code :: "CheckoutErrorCodes option"
  error_msg :: "string option"
  architecture_filter :: "string list option"

record KbuildData =
  kernel_revision :: "Revision option"
  arch :: "string option"
  defconfig :: "string option"
  compiler :: "string option"
  error_code :: "ErrorCodes option"
  error_msg :: "string option"
  fragments :: "string list option"
  config_full :: "string option"
  platform :: "string option"
  runtime :: "string option"
  job_id :: "string option"
  job_context :: "string option"
  kernel_type :: "string option"
  regression :: "objectid option"

record TestData =
  error_code :: "ErrorCodes option"
  error_msg :: "string option"
  test_source :: "string option"
  test_revision :: "Revision option"
  platform :: "string option"
  device :: "string option"
  runtime :: "string option"
  job_id :: "string option"
  job_context :: "string option"
  regression :: "objectid option"
  kernel_revision :: "Revision option"
  arch :: "string option"
  defconfig :: "string option"
  config_full :: "string option"
  compiler :: "string option"
  kernel_type :: "string option"
  misc :: "pydict option"

record RegressionData =
  fail_node :: "objectid option"
  pass_node :: "objectid option"
  node_sequence :: "objectid list option"
  error_code :: "ErrorCodes option"
  error_msg :: "string option"
  failed_kernel_revision :: "Revision option"
  arch :: "string option"
  defconfig :: "string option"
  config_full :: "string option"
  compiler :: "string option"
  platform :: "string option"
  device :: "string option"

text \<open>
  The \<open>data\<close> attribute of a node object: \<open>None\<close> or a plain dictionary on a generic
  \<open>Node\<close>, the kind's own model on a subclass (\<open>Job\<close> uses \<open>TestData\<close>), where the
  unvalidated default \<open>None\<close> remains possible.
\<close>

datatype node_data =
    NoData
  | DictData pydict
  | CheckoutD CheckoutData
  | KbuildD KbuildData
  | TestD TestData
  | RegressionD RegressionData

text \<open>
  The classes of the node hierarchy; \<open>pyclass\<close> below is the class a node object is an
  instance of, which \<open>type(node)\<close> reads.
\<close>

datatype node_class = CNode | CCheckout | CKbuild | CTest | CJob | CRegression

record Node =
  pyclass :: node_class
  node_id :: "objectid option"
  kind :: string
  name :: string
  path :: "string list"
  group :: "string option"
  parent :: "objectid option"
  state :: StateValues
  result :: "ResultValues option"
  artifacts :: "(string \<times> string) list option"
  data :: node_data
  debug :: "pydict option"
  jobfilter :: "string list option"
  platform_filter :: "string list option"
  created :: datetime
  updated :: datetime
  timeout :: datetime
  holdoff :: "datetime option"
  owner :: "string option"
  submitter :: "string option"
  treeid :: "string option"
  user_groups :: "string list"
  processed_by_kcidb_bridge :: bool

text \<open>The values \<open>attrgetter\<close> reads from the compared fields of a node.\<close>

datatype field_value =
    FStr string
  | FOptStr "string option"
  | FPath "string list"
  | FRev "Revision option"

subsection \<open>Exceptions\<close>

datatype value_error =
    InvalidIsoformat string
  | UnsupportedNodeKind string

text \<open>
  The \<open>RuntimeError\<close> of \<open>create_regression\<close> is kept structured: the two identifiers its
  message starts with (pass node, fail node), then the check that failed with the
  values the message quotes.
\<close>

datatype regression_check =
    FieldDiffers string field_value field_value
  | FailBeforePass
  | WrongPassResult "ResultValues option"
  | WrongFailResult "ResultValues option"

datatype exn =
    KeyError string
  | AttributeError
  | TypeError
  | InvalidId
  | ValueError value_error
  | RuntimeError "objectid option" "objectid option" regression_check
  | ValidationError

text \<open>
  The two parsers of the libraries the module calls are parameters of the model:
  \<open>fromisoformat\<close> stands for \<open>datetime.fromisoformat\<close> on a string (\<open>None\<close> where it
  raises \<open>ValueError\<close>) and \<open>objectid_of_str\<close> for the validation of a string by
  \<open>bson.ObjectId\<close> (\<open>None\<close> where it raises \<open>InvalidId\<close>).
\<close>

record pylib =
  fromisoformat :: "string \<Rightarrow> datetime option"
  objectid_of_str :: "string \<Rightarrow> objectid option"

text \<open>
  \<open>ObjectId(value)\<close>: a string is validated, an \<open>ObjectId\<close> is copied, anything else is
  a \<open>TypeError\<close>.
\<close>

fun ObjectId :: "pylib \<Rightarrow> pyval \<Rightarrow> exn + pyval" where
  "ObjectId L (Str s) =
     (case objectid_of_str L s of None \<Rightarrow> Inl InvalidId | Some i \<Rightarrow> Inr (ObjId i))"
| "ObjectId L (ObjId i) = Inr (ObjId i)"
| "ObjectId L (Dict d) = Inl TypeError"
| "ObjectId L (DT t) = Inl TypeError"

text \<open>\<open>datetime.fromisoformat(value)\<close>: anything but a string is a \<open>TypeError\<close>.\<close>

fun datetime_fromisoformat :: "pylib \<Rightarrow> pyval \<Rightarrow> exn + pyval" where
  "datetime_fromisoformat L (Str s) =
     (case fromisoformat L s of
        None \<Rightarrow> Inl (ValueError (InvalidIsoformat s))
      | Some t \<Rightarrow> Inr (DT t))"
| "datetime_fromisoformat L (Dict d) = Inl TypeError"
| "datetime_fromisoformat L (ObjId i) = Inl TypeError"
| "datetime_fromisoformat L (DT t) = Inl TypeError"

subsection \<open>The node state machine\<close>

text \<open>
  The lookup \<open>state_transition_map[self.state]\<close> raises \<open>KeyError\<close> on a missing key.
\<close>

definition state_transition_map :: "(string \<times> string list) list" where
  "state_transition_map =
     [(''running'', [''available'', ''closing'', ''done'']),
      (''available'', [''closing'', ''done'']),
      (''closing'', [''done'']),
      (''done'', [])]"

text \<open>
  \<open>validate_node_state_transition self_state new_state\<close>: \<open>self.state\<close> is a \<open>StateValues\<close>
  member, \<open>new_state\<close> is whatever string the caller proposes. The first reason is an
  f-string continued over a line break, so the indentation of the second source line
  is part of the text.
\<close>

definition validate_node_state_transition ::
    "StateValues \<Rightarrow> string \<Rightarrow> exn + (bool \<times> string)" where
  "validate_node_state_transition self_state new_state =
     (if new_state = state_value self_state
      then Inr (True, ''Transition to the same state: '' @ new_state @
                      ''.                 No validation is required.'')
      else (case map_of state_transition_map (state_value self_state) of
              None \<Rightarrow> Inl (KeyError (state_value self_state))
            | Some valid_states \<Rightarrow>
                if new_state \<notin> set valid_states
                then Inr (False, ''Transition not allowed with state: '' @ new_state)
                else Inr (True, ''Transition validated successfully'')))"

text \<open>The transition table as the specification words it (section 4.4).\<close>

fun transition_table :: "StateValues \<Rightarrow> StateValues set" where
  "transition_table RUNNING = {AVAILABLE, CLOSING, DONE}"
| "transition_table AVAILABLE = {CLOSING, DONE}"
| "transition_table CLOSING = {DONE}"
| "transition_table DONE = {}"

subsection \<open>The query translator\<close>

text \<open>
  \<open>key.split('__')\<close>: the pieces of the key between the non-overlapping occurrences of
  two underscores, found from the left. The first argument is the piece read so far.
\<close>

fun split_dunder :: "string \<Rightarrow> string \<Rightarrow> string list" where
  "split_dunder cur (c # d # cs) =
     (if c = CHR ''_'' \<and> d = CHR ''_''
      then cur # split_dunder [] cs
      else split_dunder (cur @ [c]) (d # cs))"
| "split_dunder cur [c] = [cur @ [c]]"
| "split_dunder cur [] = [cur]"

definition split_key :: "string \<Rightarrow> string list" where
  "split_key key = split_dunder [] key"

text \<open>
  The designated field sets. They are class attributes, extended by the subclasses, and
  the translating methods are class methods: \<open>cls\<close> selects the sets.
\<close>

fun OBJECT_ID_FIELDS :: "node_class \<Rightarrow> string list" where
  "OBJECT_ID_FIELDS CNode = [''parent'']"
| "OBJECT_ID_FIELDS CCheckout = [''parent'']"
| "OBJECT_ID_FIELDS CKbuild = [''parent''] @ [''data.regression'']"
| "OBJECT_ID_FIELDS CTest = [''parent''] @ [''data.regression'']"
| "OBJECT_ID_FIELDS CJob = [''parent''] @ [''data.regression'']"
| "OBJECT_ID_FIELDS CRegression = [''parent''] @ [''data.fail_node'', ''data.pass_node'']"

definition node_timestamp_fields :: "string list" where
  "node_timestamp_fields = [''created'', ''updated'', ''timeout'', ''holdoff'']"

fun TIMESTAMP_FIELDS :: "node_class \<Rightarrow> string list" where
  "TIMESTAMP_FIELDS CRegression =
     node_timestamp_fields @
     [''data.fail_node.created'', ''data.fail_node.updated'',
      ''data.fail_node.timeout'', ''data.fail_node.holdoff'',
      ''data.pass_node.created'', ''data.pass_node.updated'',
      ''data.pass_node.timeout'', ''data.pass_node.holdoff'']"
| "TIMESTAMP_FIELDS cls = node_timestamp_fields"

text \<open>
  \<open>_translate_operators\<close>: one turn of the loop over \<open>params.items()\<close>, then the loop.
  \<open>translated_params[param].update(...)\<close> is an \<open>AttributeError\<close> on a value that is not
  a dictionary.
\<close>

definition translate_operators_step :: "pydict \<Rightarrow> string \<times> pyval \<Rightarrow> exn + pydict" where
  "translate_operators_step translated_params kv =
     (case kv of (key, value) \<Rightarrow>
       (case split_key key of
          [param, op_name] \<Rightarrow>
            (case get_truthy translated_params param of
               Some (Dict d) \<Rightarrow>
                 Inr (AList.update param (Dict (AList.update op_name value d))
                        translated_params)
             | Some other \<Rightarrow> Inl AttributeError
             | None \<Rightarrow> Inr (AList.update param (Dict [(op_name, value)]) translated_params))
        | field \<Rightarrow> Inr (AList.update key value translated_params)))"

fun translate_operators_loop :: "pydict \<Rightarrow> pydict \<Rightarrow> exn + pydict" where
  "translate_operators_loop translated_params [] = Inr translated_params"
| "translate_operators_loop translated_params (kv # rest) =
     (case translate_operators_step translated_params kv of
        Inl e \<Rightarrow> Inl e
      | Inr t \<Rightarrow> translate_operators_loop t rest)"

definition translate_operators :: "pydict \<Rightarrow> exn + pydict" where
  "translate_operators params = translate_operators_loop [] params"

text \<open>
  \<open>_translate_object_ids\<close>: the pairs the generator yields, or the first exception
  raised while producing them.
\<close>

fun translate_object_ids :: "pylib \<Rightarrow> node_class \<Rightarrow> pydict \<Rightarrow> exn + pydict" where
  "translate_object_ids L cls [] = Inr []"
| "translate_object_ids L cls ((key, value) # rest) =
     (if key \<in> set (OBJECT_ID_FIELDS cls)
      then (case ObjectId L value of
              Inl e \<Rightarrow> Inl e
            | Inr v \<Rightarrow>
                (case translate_object_ids L cls rest of
                   Inl e \<Rightarrow> Inl e
                 | Inr ps \<Rightarrow> Inr ((key, v) # ps)))
      else translate_object_ids L cls rest)"

text \<open>
  \<open>_translate_timestamps\<close>: the inner loop over the operators of one field, then the
  loop over \<open>params.items()\<close>. The callee \<open>translated_params[key].update\<close> is evaluated
  before its argument.
\<close>

fun translate_timestamp_ops :: "pylib \<Rightarrow> string \<Rightarrow> pydict \<Rightarrow> pydict \<Rightarrow> exn + pydict" where
  "translate_timestamp_ops L key translated_params [] = Inr translated_params"
| "translate_timestamp_ops L key translated_params ((op_key, op_value) # rest) =
     (case get_truthy translated_params key of
        Some (Dict d) \<Rightarrow>
          (case datetime_fromisoformat L op_value of
             Inl e \<Rightarrow> Inl e
           | Inr t \<Rightarrow>
               translate_timestamp_ops L key
                 (AList.update key (Dict (AList.update op_key t d)) translated_params) rest)
      | Some other \<Rightarrow> Inl AttributeError
      | None \<Rightarrow>
          (case datetime_fromisoformat L op_value of
             Inl e \<Rightarrow> Inl e
           | Inr t \<Rightarrow>
               translate_timestamp_ops L key
                 (AList.update key (Dict [(op_key, t)]) translated_params) rest))"

fun translate_timestamps_loop ::
    "pylib \<Rightarrow> node_class \<Rightarrow> pydict \<Rightarrow> pydict \<Rightarrow> exn + pydict" where
  "translate_timestamps_loop L cls translated_params [] = Inr translated_params"
| "translate_timestamps_loop L cls translated_params ((key, value) # rest) =
     (if key \<in> set (TIMESTAMP_FIELDS cls)
      then (case value of
              Dict ops \<Rightarrow>
                (case translate_timestamp_ops L key translated_params ops of
                   Inl e \<Rightarrow> Inl e
                 | Inr t \<Rightarrow> translate_timestamps_loop L cls t rest)
            | other \<Rightarrow>
                (case datetime_fromisoformat L value of
                   Inl e \<Rightarrow> Inl e
                 | Inr t \<Rightarrow>
                     translate_timestamps_loop L cls
                       (AList.update key t translated_params) rest))
      else translate_timestamps_loop L cls translated_params rest)"

definition translate_timestamps :: "pylib \<Rightarrow> node_class \<Rightarrow> pydict \<Rightarrow> exn + pydict" where
  "translate_timestamps L cls params = translate_timestamps_loop L cls [] params"

text \<open>\<open>translate_fields\<close>: the three stages, each updating \<open>translated\<close>.\<close>

definition translate_fields :: "pylib \<Rightarrow> node_class \<Rightarrow> pydict \<Rightarrow> exn + pydict" where
  "translate_fields L cls params =
     (case translate_operators params of
        Inl e \<Rightarrow> Inl e
      | Inr translated \<Rightarrow>
          (case translate_object_ids L cls translated of
             Inl e \<Rightarrow> Inl e
           | Inr ids \<Rightarrow>
               let translated2 = dict_update translated ids in
               (case translate_timestamps L cls translated2 of
                  Inl e \<Rightarrow> Inl e
                | Inr stamps \<Rightarrow> Inr (dict_update translated2 stamps))))"

subsection \<open>The regression synthesizer\<close>

text \<open>
  \<open>a > b\<close> on two \<open>datetime\<close> objects: two naive values compare by their wall-clock
  readings, two aware values by their instants, and a naive value against an aware one
  is a \<open>TypeError\<close>.
\<close>

fun datetime_gt :: "datetime \<Rightarrow> datetime \<Rightarrow> exn + bool" where
  "datetime_gt (Datetime w1 None) (Datetime w2 None) = Inr (w1 > w2)"
| "datetime_gt (Datetime w1 (Some o1)) (Datetime w2 (Some o2)) = Inr (w1 - o1 > w2 - o2)"
| "datetime_gt (Datetime w1 None) (Datetime w2 (Some o2)) = Inl TypeError"
| "datetime_gt (Datetime w1 (Some o1)) (Datetime w2 None) = Inl TypeError"

text \<open>
  Attribute access on \<open>node.data\<close>: the attribute is there when the model of the data
  declares it, and an \<open>AttributeError\<close> otherwise (also on a dictionary and on \<open>None\<close>).
\<close>

fun data_kernel_revision :: "node_data \<Rightarrow> exn + Revision option" where
  "data_kernel_revision (CheckoutD d) = Inr (CheckoutData.kernel_revision d)"
| "data_kernel_revision (KbuildD d) = Inr (KbuildData.kernel_revision d)"
| "data_kernel_revision (TestD d) = Inr (TestData.kernel_revision d)"
| "data_kernel_revision (RegressionD d) = Inl AttributeError"
| "data_kernel_revision (DictData d) = Inl AttributeError"
| "data_kernel_revision NoData = Inl AttributeError"

fun data_arch :: "node_data \<Rightarrow> exn + string option" where
  "data_arch (KbuildD d) = Inr (KbuildData.arch d)"
| "data_arch (TestD d) = Inr (TestData.arch d)"
| "data_arch (RegressionD d) = Inr (RegressionData.arch d)"
| "data_arch (CheckoutD d) = Inl AttributeError"
| "data_arch (DictData d) = Inl AttributeError"
| "data_arch NoData = Inl AttributeError"

fun data_defconfig :: "node_data \<Rightarrow> exn + string option" where
  "data_defconfig (KbuildD d) = Inr (KbuildData.defconfig d)"
| "data_defconfig (TestD d) = Inr (TestData.defconfig d)"
| "data_defconfig (RegressionD d) = Inr (RegressionData.defconfig d)"
| "data_defconfig (CheckoutD d) = Inl AttributeError"
| "data_defconfig (DictData d) = Inl AttributeError"
| "data_defconfig NoData = Inl AttributeError"

fun data_config_full :: "node_data \<Rightarrow> exn + string option" where
  "data_config_full (KbuildD d) = Inr (KbuildData.config_full d)"
| "data_config_full (TestD d) = Inr (TestData.config_full d)"
| "data_config_full (RegressionD d) = Inr (RegressionData.config_full d)"
| "data_config_full (CheckoutD d) = Inl AttributeError"
| "data_config_full (DictData d) = Inl AttributeError"
| "data_config_full NoData = Inl AttributeError"

fun data_compiler :: "node_data \<Rightarrow> exn + string option" where
  "data_compiler (KbuildD d) = Inr (KbuildData.compiler d)"
| "data_compiler (TestD d) = Inr (TestData.compiler d)"
| "data_compiler (RegressionD d) = Inr (RegressionData.compiler d)"
| "data_compiler (CheckoutD d) = Inl AttributeError"
| "data_compiler (DictData d) = Inl AttributeError"
| "data_compiler NoData = Inl AttributeError"

fun data_platform :: "node_data \<Rightarrow> exn + string option" where
  "data_platform (KbuildD d) = Inr (KbuildData.platform d)"
| "data_platform (TestD d) = Inr (TestData.platform d)"
| "data_platform (RegressionD d) = Inr (RegressionData.platform d)"
| "data_platform (CheckoutD d) = Inl AttributeError"
| "data_platform (DictData d) = Inl AttributeError"
| "data_platform NoData = Inl AttributeError"

text \<open>\<open>attrgetter(field)(node)\<close> for the dotted names \<open>create_regression\<close> compares.\<close>

definition attrgetter :: "string \<Rightarrow> Node \<Rightarrow> exn + field_value" where
  "attrgetter field node =
     (if field = ''name'' then Inr (FStr (Node.name node))
      else if field = ''group'' then Inr (FOptStr (group node))
      else if field = ''path'' then Inr (FPath (path node))
      else if field = ''data.kernel_revision''
        then map_sum id FRev (data_kernel_revision (data node))
      else if field = ''data.arch'' then map_sum id FOptStr (data_arch (data node))
      else if field = ''data.defconfig'' then map_sum id FOptStr (data_defconfig (data node))
      else if field = ''data.config_full''
        then map_sum id FOptStr (data_config_full (data node))
      else if field = ''data.compiler'' then map_sum id FOptStr (data_compiler (data node))
      else if field = ''data.platform'' then map_sum id FOptStr (data_platform (data node))
      else Inl AttributeError)"

definition cmp_fields :: "string list" where
  "cmp_fields =
     [''name'', ''group'', ''path'', ''data.kernel_revision'', ''data.arch'',
      ''data.defconfig'', ''data.config_full'', ''data.compiler'', ''data.platform'']"

text \<open>
  The loop over \<open>cmp_fields\<close>: the first exception raised, if any. The getter is applied
  to the fail node first. The parameters \<open>fail_node\<close> and \<open>pass_node\<close> of the source are
  written \<open>failing\<close> and \<open>passing\<close>, the fields of \<open>RegressionData\<close> having those names.
\<close>

fun compare_fields :: "Node \<Rightarrow> Node \<Rightarrow> string list \<Rightarrow> exn option" where
  "compare_fields failing passing [] = None"
| "compare_fields failing passing (field # rest) =
     (case attrgetter field failing of
        Inl e \<Rightarrow> Some e
      | Inr a \<Rightarrow>
          (case attrgetter field passing of
             Inl e \<Rightarrow> Some e
           | Inr b \<Rightarrow>
               if a \<noteq> b
               then Some (RuntimeError (node_id passing) (node_id failing)
                            (FieldDiffers field a b))
               else compare_fields failing passing rest))"

text \<open>
  The three readings of the clock that the default factories of \<open>created\<close>, \<open>updated\<close>
  and \<open>timeout\<close> take when the \<open>Regression\<close> is built; \<open>timeout\<close> adds six hours to its
  reading.
\<close>

record clock =
  now_created :: datetime
  now_updated :: datetime
  now_timeout :: datetime

definition six_hours :: int where
  "six_hours = 6 * 3600 * 1000000"

definition get_timeout :: "datetime \<Rightarrow> datetime" where
  "get_timeout now = Datetime (wall now + six_hours) (utcoffset now)"

text \<open>
  What \<open>create_regression\<close> returns: the object, or with \<open>as_dict\<close> its JSON document
  \<open>json.loads(regression_obj.json(exclude_none=True))\<close>. The serialiser belongs to the
  model library and is a parameter.
\<close>

datatype 'j regression_out = AsObject Node | AsDict 'j

definition create_regression ::
    "clock \<Rightarrow> (Node \<Rightarrow> 'j) \<Rightarrow> Node \<Rightarrow> Node \<Rightarrow> bool \<Rightarrow> exn + 'j regression_out" where
  "create_regression clk to_json failing passing as_dict =
     (case compare_fields failing passing cmp_fields of
        Some e \<Rightarrow> Inl e
      | None \<Rightarrow>
     (case datetime_gt (created passing) (created failing) of
        Inl e \<Rightarrow> Inl e
      | Inr True \<Rightarrow>
          Inl (RuntimeError (node_id passing) (node_id failing) FailBeforePass)
      | Inr False \<Rightarrow>
     if map_option result_value (result passing) \<noteq> Some ''pass''
     then Inl (RuntimeError (node_id passing) (node_id failing)
                 (WrongPassResult (result passing)))
     else if map_option result_value (result failing) \<noteq> Some ''fail''
     then Inl (RuntimeError (node_id passing) (node_id failing)
                 (WrongFailResult (result failing)))
     else
     (case data_arch (data failing) of Inl e \<Rightarrow> Inl e | Inr arch_v \<Rightarrow>
     (case data_defconfig (data failing) of Inl e \<Rightarrow> Inl e | Inr defconfig_v \<Rightarrow>
     (case data_config_full (data failing) of Inl e \<Rightarrow> Inl e | Inr config_full_v \<Rightarrow>
     (case data_compiler (data failing) of Inl e \<Rightarrow> Inl e | Inr compiler_v \<Rightarrow>
     (case data_platform (data failing) of Inl e \<Rightarrow> Inl e | Inr platform_v \<Rightarrow>
     (case data_kernel_revision (data failing) of Inl e \<Rightarrow> Inl e | Inr revision_v \<Rightarrow>
       let data_field =
             \<lparr>fail_node = node_id failing,
              pass_node = node_id passing,
              node_sequence = Some [],
              RegressionData.error_code = None,
              RegressionData.error_msg = None,
              failed_kernel_revision = revision_v,
              RegressionData.arch = arch_v,
              RegressionData.defconfig = defconfig_v,
              RegressionData.config_full = config_full_v,
              RegressionData.compiler = compiler_v,
              RegressionData.platform = platform_v,
              RegressionData.device = None\<rparr>;
           regression_obj =
             \<lparr>pyclass = CRegression,
              node_id = None,
              kind = ''regression'',
              Node.name = Node.name failing,
              path = path failing,
              group = group failing,
              parent = None,
              state = DONE,
              result = Some FAIL,
              artifacts = Some [],
              data = RegressionD data_field,
              debug = Some [],
              jobfilter = None,
              platform_filter = Some [],
              created = now_created clk,
              updated = now_updated clk,
              timeout = get_timeout (now_timeout clk),
              holdoff = None,
              owner = None,
              submitter = None,
              treeid = None,
              user_groups = [],
              processed_by_kcidb_bridge = False\<rparr>
       in if as_dict then Inr (AsDict (to_json regression_obj))
          else Inr (AsObject regression_obj)))))))))"

subsection \<open>Dispatch on the kind\<close>

text \<open>
  \<open>cls.__subclasses__()\<close> lists the direct subclasses in the order of their definition;
  only \<open>Node\<close> has any. \<open>class_kind\<close> is the class attribute of that name.
\<close>

fun subclasses :: "node_class \<Rightarrow> node_class list" where
  "subclasses CNode = [CCheckout, CKbuild, CTest, CJob, CRegression]"
| "subclasses cls = []"

fun class_kind :: "node_class \<Rightarrow> string" where
  "class_kind CNode = ''node''"
| "class_kind CCheckout = ''checkout''"
| "class_kind CKbuild = ''kbuild''"
| "class_kind CTest = ''test''"
| "class_kind CJob = ''job''"
| "class_kind CRegression = ''regression''"

text \<open>
  \<open>parse_node_obj\<close>. The validation \<open>submodel.model_validate(node.model_dump())\<close> is not
  code of this module: \<open>revalidate submodel node\<close> stands for its outcome, and
  \<open>model_validate\<close> below gives it.
\<close>

definition parse_node_obj :: "(node_class \<Rightarrow> Node \<Rightarrow> exn + Node) \<Rightarrow> Node \<Rightarrow> exn + Node" where
  "parse_node_obj revalidate node =
     (case find (\<lambda>submodel. kind node = class_kind submodel) (subclasses (pyclass node)) of
        Some submodel \<Rightarrow> revalidate submodel node
      | None \<Rightarrow> Inl (ValueError (UnsupportedNodeKind (kind node))))"

subsection \<open>Validation of a node document\<close>

text \<open>
  Modelled from the spec: the validators of the payload models, which the model library
  derives from the field declarations and which are not under \<open>src/\<close> (nor is the base
  class \<open>DatabaseModel\<close> of \<open>models_base\<close>). Section 4.1: "given a raw untyped document,
  produce a strongly-typed entity of the correct subtype, or fail with a
  \<open>ValidationError\<close>". The validators of a revision mapping, of a list of strings, of
  the payloads of builds, tests and regressions, and of a payload that is a model
  instance already, are parameters; \<open>None\<close> is a document with an offending field.
\<close>

record validators =
  revision_of :: "pydict \<Rightarrow> Revision option"
  str_list_of :: "pyval \<Rightarrow> string list option"
  kbuild_data_of :: "pydict \<Rightarrow> KbuildData option"
  test_data_of :: "pydict \<Rightarrow> TestData option"
  regression_data_of :: "pydict \<Rightarrow> RegressionData option"
  typed_data_of :: "node_class \<Rightarrow> node_data \<Rightarrow> node_data option"

text \<open>
  Modelled from the spec: an optional field of a payload (every field of \<open>CheckoutData\<close>
  is declared \<open>Optional\<close> with default \<open>None\<close>): \<open>None\<close> when the document has no such
  key, the validated value when it has, and an offending field when the value does not
  validate. Section 8: "\<open>data.kernel_revision\<close> populated when present, \<open>None\<close>
  otherwise".
\<close>

definition optional_field :: "pydict \<Rightarrow> string \<Rightarrow> (pyval \<Rightarrow> 'a option) \<Rightarrow> 'a option option" where
  "optional_field doc key validate =
     (case map_of doc key of
        None \<Rightarrow> Some None
      | Some v \<Rightarrow> map_option Some (validate v))"

text \<open>
  Modelled from the spec: the validation of the values of the fields of \<open>CheckoutData\<close>,
  as declared: a revision is given as a mapping ("revision reference", section 3), the
  error message as a string, the error code as the value of a member of
  \<open>CheckoutErrorCodes\<close>.
\<close>

fun revision_value :: "validators \<Rightarrow> pyval \<Rightarrow> Revision option" where
  "revision_value V (Dict d) = revision_of V d"
| "revision_value V (Str s) = None"
| "revision_value V (ObjId i) = None"
| "revision_value V (DT t) = None"

fun str_value :: "pyval \<Rightarrow> string option" where
  "str_value (Str s) = Some s"
| "str_value (Dict d) = None"
| "str_value (ObjId i) = None"
| "str_value (DT t) = None"

fun checkout_error_code_value :: "pyval \<Rightarrow> CheckoutErrorCodes option" where
  "checkout_error_code_value (Str s) =
     (if s = ''node_timeout'' then Some CHECKOUT_NODE_TIMEOUT
      else if s = ''git_checkout_failure'' then Some GIT_CHECKOUT_FAILURE
      else None)"
| "checkout_error_code_value (Dict d) = None"
| "checkout_error_code_value (ObjId i) = None"
| "checkout_error_code_value (DT t) = None"

text \<open>
  Modelled from the spec: the validation of a payload document against \<open>CheckoutData\<close>
  ("CheckoutData: revision reference, optional error code/message, optional
  architecture filter", section 3): each declared field is read as an optional field,
  keys that are not declared are ignored, and one offending field fails the document.
\<close>

definition validate_checkout_data :: "validators \<Rightarrow> pydict \<Rightarrow> CheckoutData option" where
  "validate_checkout_data V doc =
     Option.bind (optional_field doc ''kernel_revision'' (revision_value V)) (\<lambda>revision.
     Option.bind (optional_field doc ''error_code'' checkout_error_code_value) (\<lambda>code.
     Option.bind (optional_field doc ''error_msg'' str_value) (\<lambda>msg.
     Option.bind (optional_field doc ''architecture_filter'' (str_list_of V)) (\<lambda>archs.
       Some \<lparr>CheckoutData.kernel_revision = revision,
             CheckoutData.error_code = code,
             CheckoutData.error_msg = msg,
             architecture_filter = archs\<rparr>))))"

text \<open>
  Modelled from the spec: the validation of the \<open>data\<close> of a dumped node against the
  \<open>data\<close> field a class declares: \<open>Optional[Dict[str, Any]]\<close> on \<open>Node\<close>, the payload
  model of the kind on a subclass, where \<open>None\<close> is no payload ("malformed or missing
  required fields", section 7).
\<close>

fun validate_data :: "validators \<Rightarrow> node_class \<Rightarrow> node_data \<Rightarrow> node_data option" where
  "validate_data V CNode NoData = Some NoData"
| "validate_data V CNode (DictData doc) = Some (DictData doc)"
| "validate_data V CCheckout NoData = None"
| "validate_data V CKbuild NoData = None"
| "validate_data V CTest NoData = None"
| "validate_data V CJob NoData = None"
| "validate_data V CRegression NoData = None"
| "validate_data V CCheckout (DictData doc) =
     map_option CheckoutD (validate_checkout_data V doc)"
| "validate_data V CKbuild (DictData doc) = map_option KbuildD (kbuild_data_of V doc)"
| "validate_data V CTest (DictData doc) = map_option TestD (test_data_of V doc)"
| "validate_data V CJob (DictData doc) = map_option TestD (test_data_of V doc)"
| "validate_data V CRegression (DictData doc) =
     map_option RegressionD (regression_data_of V doc)"
| "validate_data V submodel (CheckoutD d) = typed_data_of V submodel (CheckoutD d)"
| "validate_data V submodel (KbuildD d) = typed_data_of V submodel (KbuildD d)"
| "validate_data V submodel (TestD d) = typed_data_of V submodel (TestD d)"
| "validate_data V submodel (RegressionD d) = typed_data_of V submodel (RegressionD d)"

text \<open>
  Modelled from the spec: \<open>submodel.model_validate(node.model_dump())\<close>, the
  re-validation of a node's document into a subclass (section 4.1: "re-validate the
  document into that subtype (used to upcast generically-fetched nodes into their
  specific shapes)"). The \<open>kind\<close> of a subclass admits its own tag only; the other
  fields are declared alike on every class and are kept; the result is an instance of
  the subclass holding the validated payload, or a \<open>ValidationError\<close>.
\<close>

definition model_validate :: "validators \<Rightarrow> node_class \<Rightarrow> Node \<Rightarrow> exn + Node" where
  "model_validate V submodel node =
     (if submodel \<noteq> CNode \<and> kind node \<noteq> class_kind submodel then Inl ValidationError
      else (case validate_data V submodel (data node) of
              None \<Rightarrow> Inl ValidationError
            | Some d \<Rightarrow> Inr (node\<lparr>pyclass := submodel, data := d\<rparr>)))"

subsection \<open>Auxiliary notions for the proofs\<close>

text \<open>Joining pieces with two underscores undoes \<open>split_dunder\<close>.\<close>

fun join_dunder :: "string list \<Rightarrow> string" where
  "join_dunder [] = []"
| "join_dunder [x] = x"
| "join_dunder (x # y # ys) = x @ ''__'' @ join_dunder (y # ys)"

text \<open>
  The loop invariant of \<open>_translate_operators\<close>, relating the items \<open>seen\<close> so far to
  \<open>translated_params\<close>: every item seen is stored (directly, or under its base field
  and operator), and every stored entry comes from items seen.
\<close>

definition ops_inv :: "pydict \<Rightarrow> pydict \<Rightarrow> bool" where
  "ops_inv seen t \<longleftrightarrow>
     distinct (map fst t) \<and>
     (\<forall>k v. (k, v) \<in> set seen \<longrightarrow>
        (length (split_key k) \<noteq> 2 \<longrightarrow> map_of t k = Some v) \<and>
        (\<forall>p opn. split_key k = [p, opn] \<longrightarrow>
           (\<exists>d. map_of t p = Some (Dict d) \<and> map_of d opn = Some v))) \<and>
     (\<forall>f x. map_of t f = Some x \<longrightarrow>
        ((f, x) \<in> set seen \<and> length (split_key f) \<noteq> 2) \<or>
        (\<exists>d. x = Dict d \<and> d \<noteq> [] \<and> distinct (map fst d) \<and>
           (\<forall>opn v. map_of d opn = Some v \<longrightarrow>
              (f @ ''__'' @ opn, v) \<in> set seen \<and> split_key (f @ ''__'' @ opn) = [f, opn])))"

text \<open>
  What the identifier stage does to one entry of the mapping when every conversion
  succeeds: the value of a designated field is replaced by its \<open>ObjectId\<close>.
\<close>

definition oid_conv :: "pylib \<Rightarrow> node_class \<Rightarrow> string \<times> pyval \<Rightarrow> string \<times> pyval" where
  "oid_conv L cls kv =
     (case kv of (k, v) \<Rightarrow>
        (k, if k \<in> set (OBJECT_ID_FIELDS cls)
            then (case ObjectId L v of Inr w \<Rightarrow> w | Inl e \<Rightarrow> v)
            else v))"

text \<open>
  A sample behaviour of the two library parsers, to run the model on concrete inputs:
  the timestamp parser knows the text \<open>2024-01-01T00:00:00\<close> (midnight of the 738886th
  day of the proleptic Gregorian calendar, naive), the identifier parser accepts 24
  lower-case hexadecimal digits.
\<close>

definition example_lib :: pylib where
  "example_lib =
     \<lparr>fromisoformat = (\<lambda>s. if s = ''2024-01-01T00:00:00''
                             then Some (Datetime 63839664000000000 None) else None),
      objectid_of_str = (\<lambda>s. if length s = 24 \<and> list_all (\<lambda>c. c \<in> set ''0123456789abcdef'') s
                              then Some (Oid s) else None)\<rparr>"

text \<open>
  The agreement of two nodes on a list of fields, as the loop of \<open>create_regression\<close>
  checks it: each getter succeeds on both nodes, with equal values.
\<close>

definition fields_agree :: "Node \<Rightarrow> Node \<Rightarrow> string list \<Rightarrow> bool" where
  "fields_agree failing passing fs \<longleftrightarrow>
     (\<forall>field\<in>set fs. \<exists>v. attrgetter field failing = Inr v \<and> attrgetter field passing = Inr v)"

subsection \<open>Sample nodes\<close>

text \<open>
  Two runs of one kernel build, the passing one created a day before the failing one,
  a reading of the clock, and generic nodes of kind \<open>checkout\<close>: one with empty data
  and the \<open>Checkout\<close> it validates to, one whose data gives a revision as a mapping, one
  whose data gives a string where the revision is expected, and one without data.
\<close>

definition example_revision :: Revision where
  "example_revision =
     \<lparr>tree = ''mainline'',
      url = ''https://git.kernel.org/pub/scm/linux/kernel/git/torvalds/linux.git'',
      branch = ''master'',
      commit = ''0123456789abcdef0123456789abcdef01234567'',
      describe = Some ''v6.6'',
      Revision.version = None,
      patchset = None,
      commit_tags = [],
      commit_message = None,
      tip_of_branch = None\<rparr>"

definition example_kbuild_data :: KbuildData where
  "example_kbuild_data =
     \<lparr>KbuildData.kernel_revision = Some example_revision,
      KbuildData.arch = Some ''arm64'',
      KbuildData.defconfig = Some ''defconfig'',
      KbuildData.compiler = Some ''gcc-12'',
      KbuildData.error_code = None,
      KbuildData.error_msg = None,
      fragments = None,
      KbuildData.config_full = Some ''defconfig'',
      KbuildData.platform = None,
      KbuildData.runtime = None,
      KbuildData.job_id = None,
      KbuildData.job_context = None,
      KbuildData.kernel_type = None,
      KbuildData.regression = None\<rparr>"

definition example_pass_node :: Node where
  "example_pass_node =
     \<lparr>pyclass = CKbuild,
      node_id = Some (Oid ''65a1b2c3d4e5f60718293a4b''),
      kind = ''kbuild'',
      Node.name = ''kbuild-gcc-12-arm64'',
      path = [''checkout'', ''kbuild-gcc-12-arm64''],
      group = None,
      parent = None,
      state = DONE,
      result = Some PASS,
      artifacts = Some [],
      data = KbuildD example_kbuild_data,
      debug = Some [],
      jobfilter = None,
      platform_filter = Some [],
      created = Datetime 63839664000000000 None,
      updated = Datetime 63839664000000000 None,
      timeout = Datetime 63839685600000000 None,
      holdoff = None,
      owner = None,
      submitter = None,
      treeid = None,
      user_groups = [],
      processed_by_kcidb_bridge = False\<rparr>"

definition example_fail_node :: Node where
  "example_fail_node =
     example_pass_node
       \<lparr>node_id := Some (Oid ''65a1b2c3d4e5f60718293a4c''),
        result := Some FAIL,
        created := Datetime 63839750400000000 None\<rparr>"

definition example_clock :: clock where
  "example_clock =
     \<lparr>now_created = Datetime 63839836800000000 None,
      now_updated = Datetime 63839836800000001 None,
      now_timeout = Datetime 63839836800000002 None\<rparr>"

definition example_generic_node :: Node where
  "example_generic_node =
     example_pass_node\<lparr>pyclass := CNode, kind := ''checkout'', data := DictData []\<rparr>"

definition example_checkout_node :: Node where
  "example_checkout_node =
     example_generic_node
       \<lparr>pyclass := CCheckout,
        data := CheckoutD \<lparr>CheckoutData.kernel_revision = None,
                            CheckoutData.error_code = None,
                            CheckoutData.error_msg = None,
                            architecture_filter = None\<rparr>\<rparr>"

definition example_revision_document :: pydict where
  "example_revision_document =
     [(''tree'', Str ''mainline''),
      (''url'', Str ''https://git.kernel.org/pub/scm/linux/kernel/git/torvalds/linux.git''),
      (''branch'', Str ''master''),
      (''commit'', Str ''0123456789abcdef0123456789abcdef01234567''),
      (''describe'', Str ''v6.6'')]"

definition example_revision_node :: Node where
  "example_revision_node =
     example_generic_node
       \<lparr>data := DictData [(''kernel_revision'', Dict example_revision_document)]\<rparr>"

definition example_malformed_node :: Node where
  "example_malformed_node =
     example_generic_node\<lparr>data := DictData [(''kernel_revision'', Str ''v6.6'')]\<rparr>"

definition example_no_data_node :: Node where
  "example_no_data_node = example_generic_node\<lparr>data := NoData\<rparr>"

text \<open>
  Modelled from the spec: a sample of the validators that are parameters, to run the
  model on concrete documents. Its revision validator reads the four required fields
  of \<open>Revision\<close> (tree, url, branch, commit) and the optional describe string, all given
  as strings, and takes the defaults for the fields the document does not give; the
  other validators accept nothing.
\<close>

definition example_validators :: validators where
  "example_validators =
     \<lparr>revision_of =
        (\<lambda>d. case (map_of d ''tree'', map_of d ''url'', map_of d ''branch'',
                    map_of d ''commit'') of
                (Some (Str t), Some (Str u), Some (Str b), Some (Str c)) \<Rightarrow>
                  (if map_of d ''version'' = None \<and> map_of d ''patchset'' = None \<and>
                      map_of d ''commit_tags'' = None \<and> map_of d ''commit_message'' = None \<and>
                      map_of d ''tip_of_branch'' = None
                   then Some \<lparr>tree = t, url = u, branch = b, commit = c,
                               describe = Option.bind (map_of d ''describe'') str_value,
                               Revision.version = None, patchset = None, commit_tags = [],
                               commit_message = None, tip_of_branch = None\<rparr>
                   else None)
              | _ \<Rightarrow> None),
      str_list_of = (\<lambda>v. None),
      kbuild_data_of = (\<lambda>d. None),
      test_data_of = (\<lambda>d. None),
      regression_data_of = (\<lambda>d. None),
      typed_data_of = (\<lambda>c d. None)\<rparr>"

section \<open>Verified properties\<close>

subsection \<open>State transitions\<close>

text \<open>
  C1: for every pair of a current and a proposed state among RUNNING, AVAILABLE, CLOSING
  and DONE, \<open>validate_node_state_transition\<close> returns a pair whose first component is
  true exactly when the proposed state is the current one or the transition table lists
  it for the current one; in particular a transition to the same state is allowed, and
  DONE allows nothing but itself.
\<close>

theorem validate_node_state_transition_table:
  "(\<exists>reason. validate_node_state_transition cur (state_value new) =
       Inr (new = cur \<or> new \<in> transition_table cur, reason))
   \<and> (\<exists>reason. validate_node_state_transition cur (state_value cur) = Inr (True, reason))
   \<and> (\<exists>reason. validate_node_state_transition DONE (state_value new) =
         Inr (new = DONE, reason))"
  by (cases cur; cases new)
     (simp_all add: validate_node_state_transition_def state_transition_map_def)

subsection \<open>Operator extraction meets a bare key\<close>

text \<open>
  C9: there is an input mapping holding a bare key \<open>f\<close> with a non-empty string value
  and an operator-suffixed key \<open>f__op\<close> on the same base field on which the
  operator-extraction stage raises (an \<open>AttributeError\<close>, from calling \<open>update\<close> on the
  string stored under \<open>f\<close>) instead of returning a mapping. It does so whatever the
  non-empty string and the operator's value are.
\<close>

theorem translate_operators_bare_then_operator_raises:
  "(\<forall>c s v. translate_operators [(''f'', Str (c # s)), (''f__op'', v)] = Inl AttributeError)
   \<and> (\<exists>params f op s v.
         s \<noteq> [] \<and> distinct (map fst params) \<and>
         map_of params f = Some (Str s) \<and>
         map_of params (f @ ''__'' @ op) = Some v \<and>
         split_key (f @ ''__'' @ op) = [f, op] \<and>
         translate_operators params = Inl AttributeError)"
proof
  show all: "\<forall>c s v. translate_operators [(''f'', Str (c # s)), (''f__op'', v)] = Inl AttributeError"
    by (simp add: translate_operators_def translate_operators_step_def split_key_def
        get_truthy_def)
  have "translate_operators [(''f'', Str ''x''), (''f__op'', Str ''y'')] = Inl AttributeError"
    using all by blast
  then show "\<exists>params f op s v.
         s \<noteq> [] \<and> distinct (map fst params) \<and>
         map_of params f = Some (Str s) \<and>
         map_of params (f @ ''__'' @ op) = Some v \<and>
         split_key (f @ ''__'' @ op) = [f, op] \<and>
         translate_operators params = Inl AttributeError"
    by (intro exI [of _ "[(''f'', Str ''x''), (''f__op'', Str ''y'')]"] exI [of _ "''f''"]
        exI [of _ "''op''"] exI [of _ "''x''"] exI [of _ "Str ''y''"])
       (simp add: split_key_def)
qed

subsection \<open>Operators on identifier fields\<close>

text \<open>
  C4 (the behaviour of the code at the claim's own example): for the filter
  \<open>parent__ne = raw\<close>, stage 1 nests the operator under \<open>parent\<close>, and
  \<open>_translate_object_ids\<close> then hands the whole sub-mapping to \<open>ObjectId\<close>, which raises
  \<open>TypeError\<close>: no mapping \<open>{parent: {ne: coerced}}\<close> is returned, for any class, any
  raw value and any behaviour of the identifier parser.
\<close>

theorem translate_fields_operator_on_object_id_raises:
  "translate_operators [(''parent__ne'', Str raw)] = Inr [(''parent'', Dict [(''ne'', Str raw)])]
   \<and> translate_fields L cls [(''parent__ne'', Str raw)] = Inl TypeError"
  by (cases cls)
     (simp_all add: translate_fields_def translate_operators_def translate_operators_step_def
        split_key_def get_truthy_def)

subsection \<open>Operator extraction\<close>

lemma split_dunder_nonempty: "split_dunder cur s \<noteq> []"
  by (induction cur s rule: split_dunder.induct) auto

lemma join_Cons: "ys \<noteq> [] \<Longrightarrow> join_dunder (x # ys) = x @ ''__'' @ join_dunder ys"
  by (cases ys) auto

lemma join_split_dunder: "join_dunder (split_dunder cur s) = cur @ s"
  by (induction cur s rule: split_dunder.induct)
     (auto simp: join_Cons split_dunder_nonempty)

lemma split_key_two: "split_key k = [p, opn] \<Longrightarrow> k = p @ ''__'' @ opn"
  using join_split_dunder [of "[]" k] by (simp add: split_key_def)

lemma step_op:
  "split_key k = [p, opn] \<Longrightarrow> translate_operators_step t (k, v) =
     (case get_truthy t p of
               Some (Dict d) \<Rightarrow> Inr (AList.update p (Dict (AList.update opn v d)) t)
             | Some other \<Rightarrow> Inl AttributeError
             | None \<Rightarrow> Inr (AList.update p (Dict [(opn, v)]) t))"
  by (simp add: translate_operators_step_def)

lemma step_plain:
  "length (split_key k) \<noteq> 2 \<Longrightarrow> translate_operators_step t (k, v) = Inr (AList.update k v t)"
  by (auto simp add: translate_operators_step_def split: list.splits)

lemma step_plain_inv:
  assumes inv: "ops_inv seen t"
    and new: "k \<notin> fst ` set seen"
    and plain: "length (split_key k) \<noteq> 2"
    and nb: "\<forall>k'\<in>fst ` set seen. \<forall>p opn. split_key k' = [p, opn] \<longrightarrow> p \<noteq> k"
  shows "ops_inv (seen @ [(k, v)]) (AList.update k v t)"
proof -
  have d: "distinct (map fst (AList.update k v t))"
    using inv by (simp add: ops_inv_def distinct_update)
  have a: "\<forall>k1 v1. (k1, v1) \<in> set (seen @ [(k, v)]) \<longrightarrow>
        (length (split_key k1) \<noteq> 2 \<longrightarrow> map_of (AList.update k v t) k1 = Some v1) \<and>
        (\<forall>p opn. split_key k1 = [p, opn] \<longrightarrow>
           (\<exists>d. map_of (AList.update k v t) p = Some (Dict d) \<and> map_of d opn = Some v1))"
  proof (intro allI impI)
    fix k1 v1 assume m: "(k1, v1) \<in> set (seen @ [(k, v)])"
    show "(length (split_key k1) \<noteq> 2 \<longrightarrow> map_of (AList.update k v t) k1 = Some v1) \<and>
        (\<forall>p opn. split_key k1 = [p, opn] \<longrightarrow>
           (\<exists>d. map_of (AList.update k v t) p = Some (Dict d) \<and> map_of d opn = Some v1))"
    proof (cases "(k1, v1) = (k, v)")
      case True
      then show ?thesis using plain by (auto simp: update_conv')
    next
      case False
      with m have s: "(k1, v1) \<in> set seen" by auto
      then have ne: "k1 \<noteq> k" using new by force
      have old: "(length (split_key k1) \<noteq> 2 \<longrightarrow> map_of t k1 = Some v1) \<and>
        (\<forall>p opn. split_key k1 = [p, opn] \<longrightarrow>
           (\<exists>d. map_of t p = Some (Dict d) \<and> map_of d opn = Some v1))"
        using inv s unfolding ops_inv_def by blast
      have "\<forall>p opn. split_key k1 = [p, opn] \<longrightarrow> p \<noteq> k"
        using nb s by force
      with old ne show ?thesis by (simp add: update_conv')
    qed
  qed
  have b: "\<forall>f x. map_of (AList.update k v t) f = Some x \<longrightarrow>
        ((f, x) \<in> set (seen @ [(k, v)]) \<and> length (split_key f) \<noteq> 2) \<or>
        (\<exists>d. x = Dict d \<and> d \<noteq> [] \<and> distinct (map fst d) \<and>
           (\<forall>opn v'. map_of d opn = Some v' \<longrightarrow>
              (f @ ''__'' @ opn, v') \<in> set (seen @ [(k, v)]) \<and> split_key (f @ ''__'' @ opn) = [f, opn]))"
  proof (intro allI impI)
    fix f x assume m: "map_of (AList.update k v t) f = Some x"
    show "((f, x) \<in> set (seen @ [(k, v)]) \<and> length (split_key f) \<noteq> 2) \<or>
        (\<exists>d. x = Dict d \<and> d \<noteq> [] \<and> distinct (map fst d) \<and>
           (\<forall>opn v'. map_of d opn = Some v' \<longrightarrow>
              (f @ ''__'' @ opn, v') \<in> set (seen @ [(k, v)]) \<and> split_key (f @ ''__'' @ opn) = [f, opn]))"
    proof (cases "f = k")
      case True
      then show ?thesis using m plain by (simp add: update_conv')
    next
      case False
      then have "map_of t f = Some x" using m by (simp add: update_conv')
      then have "((f, x) \<in> set seen \<and> length (split_key f) \<noteq> 2) \<or>
        (\<exists>d. x = Dict d \<and> d \<noteq> [] \<and> distinct (map fst d) \<and>
           (\<forall>opn v'. map_of d opn = Some v' \<longrightarrow>
              (f @ ''__'' @ opn, v') \<in> set seen \<and> split_key (f @ ''__'' @ opn) = [f, opn]))"
        using inv unfolding ops_inv_def by blast
      then show ?thesis by auto
    qed
  qed
  show ?thesis unfolding ops_inv_def using d a b by blast
qed


lemma step_op_inv:
  assumes inv: "ops_inv seen t"
    and new: "k \<notin> fst ` set seen"
    and op: "split_key k = [p, opn]"
    and nb: "p \<notin> fst ` set seen"
  shows "\<exists>t'. translate_operators_step t (k, v) = Inr t' \<and> ops_inv (seen @ [(k, v)]) t'"
proof -
  have kform: "k = p @ ''__'' @ opn" using op by (rule split_key_two)
  have entry: "\<And>x. map_of t p = Some x \<Longrightarrow>
      \<exists>d. x = Dict d \<and> d \<noteq> [] \<and> distinct (map fst d) \<and>
           (\<forall>opn' v'. map_of d opn' = Some v' \<longrightarrow>
              (p @ ''__'' @ opn', v') \<in> set seen \<and> split_key (p @ ''__'' @ opn') = [p, opn'])"
  proof -
    fix x assume "map_of t p = Some x"
    then have "((p, x) \<in> set seen \<and> length (split_key p) \<noteq> 2) \<or>
        (\<exists>d. x = Dict d \<and> d \<noteq> [] \<and> distinct (map fst d) \<and>
           (\<forall>opn' v'. map_of d opn' = Some v' \<longrightarrow>
              (p @ ''__'' @ opn', v') \<in> set seen \<and> split_key (p @ ''__'' @ opn') = [p, opn']))"
      using inv unfolding ops_inv_def by blast
    moreover have "(p, x) \<notin> set seen" using nb by force
    ultimately show "\<exists>d. x = Dict d \<and> d \<noteq> [] \<and> distinct (map fst d) \<and>
           (\<forall>opn' v'. map_of d opn' = Some v' \<longrightarrow>
              (p @ ''__'' @ opn', v') \<in> set seen \<and> split_key (p @ ''__'' @ opn') = [p, opn'])"
      by blast
  qed
  define d0 where "d0 = (case map_of t p of Some (Dict d) \<Rightarrow> d | _ \<Rightarrow> [])"
  define t' where "t' = AList.update p (Dict (AList.update opn v d0)) t"
  have d0_entries: "\<forall>opn' v'. map_of d0 opn' = Some v' \<longrightarrow>
              (p @ ''__'' @ opn', v') \<in> set seen \<and> split_key (p @ ''__'' @ opn') = [p, opn']"
    using entry by (auto simp: d0_def split: option.splits pyval.splits)
  have d0_dist: "distinct (map fst d0)"
    using entry by (auto simp: d0_def split: option.splits pyval.splits)
  have d0_new: "map_of d0 opn = None"
  proof (rule ccontr)
    assume "map_of d0 opn \<noteq> None"
    then obtain v' where "map_of d0 opn = Some v'" by auto
    then have "(k, v') \<in> set seen" using d0_entries kform by blast
    then show False using new by force
  qed
  have d0_map: "map_of t p = None \<and> d0 = [] \<or> map_of t p = Some (Dict d0) \<and> d0 \<noteq> []"
    using entry by (cases "map_of t p") (auto simp: d0_def)
  have step: "translate_operators_step t (k, v) = Inr t'"
    using d0_map
    by (auto simp: step_op [OF op] get_truthy_def t'_def)
  have d: "distinct (map fst t')"
    using inv by (simp add: ops_inv_def distinct_update t'_def)
  have a: "\<forall>k1 v1. (k1, v1) \<in> set (seen @ [(k, v)]) \<longrightarrow>
        (length (split_key k1) \<noteq> 2 \<longrightarrow> map_of t' k1 = Some v1) \<and>
        (\<forall>p1 opn1. split_key k1 = [p1, opn1] \<longrightarrow>
           (\<exists>d. map_of t' p1 = Some (Dict d) \<and> map_of d opn1 = Some v1))"
  proof (intro allI impI)
    fix k1 v1 assume m: "(k1, v1) \<in> set (seen @ [(k, v)])"
    show "(length (split_key k1) \<noteq> 2 \<longrightarrow> map_of t' k1 = Some v1) \<and>
        (\<forall>p1 opn1. split_key k1 = [p1, opn1] \<longrightarrow>
           (\<exists>d. map_of t' p1 = Some (Dict d) \<and> map_of d opn1 = Some v1))"
    proof (cases "(k1, v1) = (k, v)")
      case True
      then show ?thesis using op by (auto simp: update_conv' t'_def)
    next
      case False
      with m have s: "(k1, v1) \<in> set seen" by auto
      then have ne: "k1 \<noteq> k" using new by force
      have ne2: "k1 \<noteq> p" using nb s by force
      have old: "(length (split_key k1) \<noteq> 2 \<longrightarrow> map_of t k1 = Some v1) \<and>
        (\<forall>p1 opn1. split_key k1 = [p1, opn1] \<longrightarrow>
           (\<exists>d. map_of t p1 = Some (Dict d) \<and> map_of d opn1 = Some v1))"
        using inv s unfolding ops_inv_def by blast
      have plain: "length (split_key k1) \<noteq> 2 \<longrightarrow> map_of t' k1 = Some v1"
        using old ne2 by (simp add: update_conv' t'_def)
      have nested: "\<forall>p1 opn1. split_key k1 = [p1, opn1] \<longrightarrow>
           (\<exists>d. map_of t' p1 = Some (Dict d) \<and> map_of d opn1 = Some v1)"
      proof (intro allI impI)
        fix p1 opn1 assume sp: "split_key k1 = [p1, opn1]"
        then obtain d1 where d1: "map_of t p1 = Some (Dict d1)" "map_of d1 opn1 = Some v1"
          using old by blast
        show "\<exists>d. map_of t' p1 = Some (Dict d) \<and> map_of d opn1 = Some v1"
        proof (cases "p1 = p")
          case True
          then have "d1 = d0" using d1 d0_map by auto
          moreover have "opn1 \<noteq> opn"
            using ne split_key_two [OF sp] kform True by auto
          ultimately show ?thesis using d1 True by (simp add: update_conv' t'_def)
        next
          case False
          then show ?thesis using d1 by (simp add: update_conv' t'_def)
        qed
      qed
      from plain nested show ?thesis by blast
    qed
  qed
  have b: "\<forall>f x. map_of t' f = Some x \<longrightarrow>
        ((f, x) \<in> set (seen @ [(k, v)]) \<and> length (split_key f) \<noteq> 2) \<or>
        (\<exists>d. x = Dict d \<and> d \<noteq> [] \<and> distinct (map fst d) \<and>
           (\<forall>opn' v'. map_of d opn' = Some v' \<longrightarrow>
              (f @ ''__'' @ opn', v') \<in> set (seen @ [(k, v)]) \<and> split_key (f @ ''__'' @ opn') = [f, opn']))"
  proof (intro allI impI)
    fix f x assume m: "map_of t' f = Some x"
    show "((f, x) \<in> set (seen @ [(k, v)]) \<and> length (split_key f) \<noteq> 2) \<or>
        (\<exists>d. x = Dict d \<and> d \<noteq> [] \<and> distinct (map fst d) \<and>
           (\<forall>opn' v'. map_of d opn' = Some v' \<longrightarrow>
              (f @ ''__'' @ opn', v') \<in> set (seen @ [(k, v)]) \<and> split_key (f @ ''__'' @ opn') = [f, opn']))"
    proof (cases "f = p")
      case True
      then have x: "x = Dict (AList.update opn v d0)" using m by (simp add: update_conv' t'_def)
      have "\<forall>opn' v'. map_of (AList.update opn v d0) opn' = Some v' \<longrightarrow>
              (p @ ''__'' @ opn', v') \<in> set (seen @ [(k, v)]) \<and> split_key (p @ ''__'' @ opn') = [p, opn']"
        using d0_entries kform op by (auto simp: update_conv')
      then show ?thesis using x True d0_dist
        by (auto simp: distinct_update update_nonempty)
    next
      case False
      then have "map_of t f = Some x" using m by (simp add: update_conv' t'_def)
      then have "((f, x) \<in> set seen \<and> length (split_key f) \<noteq> 2) \<or>
        (\<exists>d. x = Dict d \<and> d \<noteq> [] \<and> distinct (map fst d) \<and>
           (\<forall>opn' v'. map_of d opn' = Some v' \<longrightarrow>
              (f @ ''__'' @ opn', v') \<in> set seen \<and> split_key (f @ ''__'' @ opn') = [f, opn']))"
        using inv unfolding ops_inv_def by blast
      then show ?thesis by auto
    qed
  qed
  have "ops_inv (seen @ [(k, v)]) t'" unfolding ops_inv_def using d a b by blast
  with step show ?thesis by blast
qed


lemma ops_inv_empty: "ops_inv [] []"
  by (simp add: ops_inv_def)

lemma translate_operators_loop_inv:
  assumes "ops_inv seen t"
    and "distinct (map fst (seen @ xs))"
    and "\<forall>k\<in>fst ` set (seen @ xs). \<forall>p opn. split_key k = [p, opn] \<longrightarrow> p \<notin> fst ` set (seen @ xs)"
  shows "\<exists>t'. translate_operators_loop t xs = Inr t' \<and> ops_inv (seen @ xs) t'"
  using assms
proof (induction xs arbitrary: seen t)
  case Nil
  then show ?case by simp
next
  case (Cons kv xs)
  obtain k v where kv: "kv = (k, v)" by (cases kv)
  have new: "k \<notin> fst ` set seen" using Cons.prems(2) kv by auto
  have clash: "\<forall>k'\<in>fst ` set (seen @ kv # xs). \<forall>p opn. split_key k' = [p, opn] \<longrightarrow>
                 p \<notin> fst ` set (seen @ kv # xs)"
    using Cons.prems(3) .
  have "\<exists>t1. translate_operators_step t (k, v) = Inr t1 \<and> ops_inv (seen @ [(k, v)]) t1"
  proof (cases "length (split_key k) = 2")
    case True
    then obtain p opn where sp: "split_key k = [p, opn]"
      by (cases "split_key k"; cases "tl (split_key k)") auto
    have "p \<notin> fst ` set seen" using clash sp kv by fastforce
    from step_op_inv [OF Cons.prems(1) new sp this] show ?thesis .
  next
    case False
    have "\<forall>k'\<in>fst ` set seen. \<forall>p opn. split_key k' = [p, opn] \<longrightarrow> p \<noteq> k"
      using clash kv by fastforce
    from step_plain_inv [OF Cons.prems(1) new False this]
    show ?thesis using False by (simp add: step_plain)
  qed
  then obtain t1 where t1: "translate_operators_step t (k, v) = Inr t1"
      "ops_inv (seen @ [(k, v)]) t1" by blast
  have "\<exists>t'. translate_operators_loop t1 xs = Inr t' \<and> ops_inv ((seen @ [(k, v)]) @ xs) t'"
    using Cons.prems(2,3) kv by (intro Cons.IH [OF t1(2)]) simp_all
  then show ?case using t1(1) kv by simp
qed

text \<open>
  C3 (amended): for every input mapping with pairwise distinct keys in which no base
  field of an operator-suffixed key is itself a key, the operator-extraction stage
  returns a mapping \<open>t\<close> such that every key \<open>field__operator\<close> (a key that splits into
  exactly two pieces) is found under \<open>t[field]\<close>, a sub-mapping holding its value at
  \<open>operator\<close>, so that several operators on one field share one sub-mapping, and every
  other key \<open>k\<close> is the direct entry \<open>t[k] = value\<close>; and \<open>t\<close> holds nothing else.
\<close>

theorem translate_operators_nests:
  assumes "distinct (map fst params)"
    and "\<forall>k\<in>fst ` set params. \<forall>p opn. split_key k = [p, opn] \<longrightarrow> p \<notin> fst ` set params"
  shows "\<exists>t. translate_operators params = Inr t \<and> distinct (map fst t) \<and>
     (\<forall>(k, v)\<in>set params.
        (case split_key k of
           [f, opn] \<Rightarrow> \<exists>d. map_of t f = Some (Dict d) \<and> map_of d opn = Some v
         | _ \<Rightarrow> map_of t k = Some v)) \<and>
     (\<forall>(f, x)\<in>set t.
        ((f, x) \<in> set params \<and> length (split_key f) \<noteq> 2) \<or>
        (\<exists>d. x = Dict d \<and>
           (\<forall>(opn, v)\<in>set d. (f @ ''__'' @ opn, v) \<in> set params \<and>
               split_key (f @ ''__'' @ opn) = [f, opn])))"
proof -
  obtain t where t: "translate_operators params = Inr t" "ops_inv params t"
    using translate_operators_loop_inv [OF ops_inv_empty, of params] assms
    by (auto simp: translate_operators_def)
  have dist: "distinct (map fst t)" using t(2) by (simp add: ops_inv_def)
  have a: "\<forall>(k, v)\<in>set params.
        (case split_key k of
           [f, opn] \<Rightarrow> \<exists>d. map_of t f = Some (Dict d) \<and> map_of d opn = Some v
         | _ \<Rightarrow> map_of t k = Some v)"
  proof (clarify)
    fix k v assume m: "(k, v) \<in> set params"
    have old: "(length (split_key k) \<noteq> 2 \<longrightarrow> map_of t k = Some v) \<and>
        (\<forall>p opn. split_key k = [p, opn] \<longrightarrow>
           (\<exists>d. map_of t p = Some (Dict d) \<and> map_of d opn = Some v))"
      using t(2) m unfolding ops_inv_def by blast
    then show "case split_key k of
           [f, opn] \<Rightarrow> \<exists>d. map_of t f = Some (Dict d) \<and> map_of d opn = Some v
         | _ \<Rightarrow> map_of t k = Some v"
      by (auto split: list.splits)
  qed
  have b: "\<forall>(f, x)\<in>set t.
        ((f, x) \<in> set params \<and> length (split_key f) \<noteq> 2) \<or>
        (\<exists>d. x = Dict d \<and>
           (\<forall>(opn, v)\<in>set d. (f @ ''__'' @ opn, v) \<in> set params \<and>
               split_key (f @ ''__'' @ opn) = [f, opn]))"
  proof (clarify)
    fix f x assume m: "(f, x) \<in> set t"
      and n: "\<not> (\<exists>d. x = Dict d \<and>
           (\<forall>(opn, v)\<in>set d. (f @ ''__'' @ opn, v) \<in> set params \<and>
               split_key (f @ ''__'' @ opn) = [f, opn]))"
    have "map_of t f = Some x" using m dist by simp
    then have "((f, x) \<in> set params \<and> length (split_key f) \<noteq> 2) \<or>
        (\<exists>d. x = Dict d \<and> d \<noteq> [] \<and> distinct (map fst d) \<and>
           (\<forall>opn v. map_of d opn = Some v \<longrightarrow>
              (f @ ''__'' @ opn, v) \<in> set params \<and> split_key (f @ ''__'' @ opn) = [f, opn]))"
      using t(2) unfolding ops_inv_def by blast
    then show "(f, x) \<in> set params \<and> length (split_key f) \<noteq> 2"
      using n by (auto simp: map_of_eq_Some_iff)
  qed
  from t(1) dist a b show ?thesis by blast
qed


theorem translate_operators_nests_witness:
  "distinct (map fst [(''a__ne'', Str ''1''), (''state'', Str ''done''), (''a__lt'', Str ''2'')])
   \<and> translate_operators [(''a__ne'', Str ''1''), (''state'', Str ''done''), (''a__lt'', Str ''2'')]
     = Inr [(''a'', Dict [(''ne'', Str ''1''), (''lt'', Str ''2'')]), (''state'', Str ''done'')]"
proof -
  let ?P = "[(''a__ne'', Str ''1''), (''state'', Str ''done''), (''a__lt'', Str ''2'')]"
  have h1: "distinct (map fst ?P)" by simp
  have h2: "\<forall>k\<in>fst ` set ?P. \<forall>p opn. split_key k = [p, opn] \<longrightarrow> p \<notin> fst ` set ?P"
    by (simp add: split_key_def)
  from translate_operators_nests [OF h1 h2] h1 show ?thesis
    by (simp add: translate_operators_def translate_operators_step_def split_key_def
        get_truthy_def)
qed

text \<open>
  The claim as stated, for every flat mapping, fails when a bare key follows an operator
  on the same field: the bare entry replaces the sub-mapping, and the operator is lost.
\<close>

theorem translate_operators_nests_counterexample:
  "translate_operators [(''a__ne'', Str ''x''), (''a'', Str ''y'')] = Inr [(''a'', Str ''y'')]
   \<and> \<not> (\<forall>params. distinct (map fst params) \<longrightarrow>
          (\<exists>t. translate_operators params = Inr t \<and>
             (\<forall>(k, v)\<in>set params.
                (case split_key k of
                   [f, opn] \<Rightarrow> \<exists>d. map_of t f = Some (Dict d) \<and> map_of d opn = Some v
                 | _ \<Rightarrow> map_of t k = Some v))))"
proof
  show ev: "translate_operators [(''a__ne'', Str ''x''), (''a'', Str ''y'')] = Inr [(''a'', Str ''y'')]"
    by (simp add: translate_operators_def translate_operators_step_def split_key_def
        get_truthy_def)
  show "\<not> (\<forall>params. distinct (map fst params) \<longrightarrow>
          (\<exists>t. translate_operators params = Inr t \<and>
             (\<forall>(k, v)\<in>set params.
                (case split_key k of
                   [f, opn] \<Rightarrow> \<exists>d. map_of t f = Some (Dict d) \<and> map_of d opn = Some v
                 | _ \<Rightarrow> map_of t k = Some v))))"
  proof
    assume "\<forall>params. distinct (map fst params) \<longrightarrow>
          (\<exists>t. translate_operators params = Inr t \<and>
             (\<forall>(k, v)\<in>set params.
                (case split_key k of
                   [f, opn] \<Rightarrow> \<exists>d. map_of t f = Some (Dict d) \<and> map_of d opn = Some v
                 | _ \<Rightarrow> map_of t k = Some v)))"
    then have "distinct (map fst [(''a__ne'', Str ''x''), (''a'', Str ''y'')]) \<longrightarrow>
          (\<exists>t. translate_operators [(''a__ne'', Str ''x''), (''a'', Str ''y'')] = Inr t \<and>
             (\<forall>(k, v)\<in>set [(''a__ne'', Str ''x''), (''a'', Str ''y'')].
                (case split_key k of
                   [f, opn] \<Rightarrow> \<exists>d. map_of t f = Some (Dict d) \<and> map_of d opn = Some v
                 | _ \<Rightarrow> map_of t k = Some v)))"
      by (rule spec)
    then have "\<exists>t. translate_operators [(''a__ne'', Str ''x''), (''a'', Str ''y'')] = Inr t \<and>
             (\<forall>(k, v)\<in>set [(''a__ne'', Str ''x''), (''a'', Str ''y'')].
                (case split_key k of
                   [f, opn] \<Rightarrow> \<exists>d. map_of t f = Some (Dict d) \<and> map_of d opn = Some v
                 | _ \<Rightarrow> map_of t k = Some v))"
      by simp
    then show False using ev by (simp add: split_key_def)
  qed
qed

subsection \<open>Translating a translated filter\<close>

lemma split_dunder_first:
  "split_dunder cur s = x # rest \<Longrightarrow>
     \<exists>pre suf. x = cur @ pre \<and> s = pre @ suf \<and> (\<forall>cur'. split_dunder cur' pre = [cur' @ pre])"
proof (induction cur s arbitrary: x rest rule: split_dunder.induct)
  case (1 cur c d cs)
  show ?case
  proof (cases "c = CHR ''_'' \<and> d = CHR ''_''")
    case True
    then have "x = cur" using 1(3) by simp
    then show ?thesis by (rule_tac x = "[]" in exI) simp
  next
    case False
    then have "split_dunder (cur @ [c]) (d # cs) = x # rest" using 1(3) by auto
    from 1(2) [OF False this] obtain pre suf where
      p: "x = (cur @ [c]) @ pre" "d # cs = pre @ suf" "\<forall>cur'. split_dunder cur' pre = [cur' @ pre]"
      by blast
    have "\<forall>cur'. split_dunder cur' (c # pre) = [cur' @ c # pre]"
    proof (cases pre)
      case Nil
      then show ?thesis by simp
    next
      case (Cons d' r)
      then have "d' = d" using p(2) by simp
      then show ?thesis using False p(3) Cons by auto
    qed
    then show ?thesis using p
      by (rule_tac x = "c # pre" in exI, rule_tac x = suf in exI) simp
  qed
next
  case (2 cur c)
  then show ?case by (rule_tac x = "[c]" in exI) simp
next
  case (3 cur)
  then show ?case by simp
qed

lemma split_key_base_plain: "split_key k = p # rest \<Longrightarrow> split_key p = [p]"
  using split_dunder_first [of "[]" k p rest] by (auto simp: split_key_def)

lemma update_append_new: "k \<notin> fst ` set al \<Longrightarrow> AList.update k v al = al @ [(k, v)]"
  by (induction al) auto

lemma update_in_middle:
  "k \<notin> fst ` set pre \<Longrightarrow> AList.update k w (pre @ (k, v) # rest) = pre @ (k, w) # rest"
  by (induction pre) auto

lemma translate_operators_loop_plain:
  "distinct (map fst (acc @ xs)) \<Longrightarrow> \<forall>k\<in>fst ` set xs. length (split_key k) \<noteq> 2 \<Longrightarrow>
     translate_operators_loop acc xs = Inr (acc @ xs)"
proof (induction xs arbitrary: acc)
  case Nil
  then show ?case by simp
next
  case (Cons kv xs)
  obtain k v where kv: "kv = (k, v)" by (cases kv)
  have plain: "length (split_key k) \<noteq> 2" using Cons.prems(2) kv by simp
  have new: "k \<notin> fst ` set acc" using Cons.prems(1) kv by auto
  have step: "translate_operators_step acc (k, v) = Inr (acc @ [(k, v)])"
    using plain new by (auto simp: translate_operators_step_def update_append_new split: list.splits)
  have "translate_operators_loop (acc @ [(k, v)]) xs = Inr ((acc @ [(k, v)]) @ xs)"
    using Cons.prems kv by (intro Cons.IH) simp_all
  then show ?case using step kv by simp
qed

lemma step_plain_keys:
  assumes "translate_operators_step t (k, v) = Inr t'"
    and "\<forall>f\<in>fst ` set t. length (split_key f) \<noteq> 2"
  shows "\<forall>f\<in>fst ` set t'. length (split_key f) \<noteq> 2"
proof (cases "length (split_key k) = 2")
  case True
  then obtain p opn where sp: "split_key k = [p, opn]"
    by (cases "split_key k"; cases "tl (split_key k)") auto
  have "length (split_key p) \<noteq> 2" using split_key_base_plain [OF sp] by simp
  moreover have "\<exists>x. t' = AList.update p x t"
    using assms(1) sp
    by (auto simp: translate_operators_step_def split: option.splits pyval.splits)
  then obtain x where "t' = AList.update p x t" by blast
  then have "fst ` set t' = {p} \<union> fst ` set t"
    by (simp only: dom_update)
  ultimately show ?thesis using assms(2) by simp
next
  case False
  then have "t' = AList.update k v t"
    using assms(1) by (auto simp: translate_operators_step_def split: list.splits)
  then show ?thesis using assms(2) False by (simp add: dom_update)
qed

lemma step_distinct:
  assumes "translate_operators_step t (k, v) = Inr t'" and "distinct (map fst t)"
  shows "distinct (map fst t')"
  using assms
  by (auto simp: translate_operators_step_def distinct_update
      split: list.splits option.splits pyval.splits)

lemma translate_operators_loop_keys:
  "translate_operators_loop t xs = Inr t' \<Longrightarrow> distinct (map fst t) \<Longrightarrow>
     \<forall>f\<in>fst ` set t. length (split_key f) \<noteq> 2 \<Longrightarrow>
     distinct (map fst t') \<and> (\<forall>f\<in>fst ` set t'. length (split_key f) \<noteq> 2)"
proof (induction xs arbitrary: t)
  case Nil
  then show ?case by simp
next
  case (Cons kv xs)
  obtain k v where kv: "kv = (k, v)" by (cases kv)
  from Cons.prems(1) kv obtain t1 where
    t1: "translate_operators_step t (k, v) = Inr t1" "translate_operators_loop t1 xs = Inr t'"
    by (auto split: sum.splits)
  show ?case
    using Cons.IH [OF t1(2) step_distinct [OF t1(1) Cons.prems(2)]
        step_plain_keys [OF t1(1) Cons.prems(3)]] .
qed

lemma translate_operators_keys:
  "translate_operators params = Inr t \<Longrightarrow>
     distinct (map fst t) \<and> (\<forall>f\<in>fst ` set t. length (split_key f) \<noteq> 2)"
  using translate_operators_loop_keys [of "[]" params t] by (simp add: translate_operators_def)

lemma translate_operators_fixed:
  "distinct (map fst t) \<Longrightarrow> \<forall>f\<in>fst ` set t. length (split_key f) \<noteq> 2 \<Longrightarrow>
     translate_operators t = Inr t"
  using translate_operators_loop_plain [of "[]" t] by (simp add: translate_operators_def)

lemma ObjectId_result:
  "ObjectId L v = Inr w \<Longrightarrow> \<exists>i. w = ObjId i"
  by (cases v) (auto split: option.splits)

lemma ObjectId_fixed: "ObjectId L v = Inr w \<Longrightarrow> ObjectId L w = Inr w"
  using ObjectId_result [of L v w] by auto

lemma oid_conv_pair:
  "oid_conv L cls (k, v) =
     (k, if k \<in> set (OBJECT_ID_FIELDS cls)
         then (case ObjectId L v of Inr w \<Rightarrow> w | Inl e \<Rightarrow> v) else v)"
  by (simp add: oid_conv_def)

lemma object_ids_closed:
  "translate_object_ids L cls d = Inr ids \<Longrightarrow> distinct (map fst (pre @ d)) \<Longrightarrow>
     dict_update (pre @ d) ids = pre @ map (oid_conv L cls) d"
proof (induction d arbitrary: pre ids)
  case Nil
  then show ?case by simp
next
  case (Cons kv d)
  obtain k v where kv: "kv = (k, v)" by (cases kv)
  show ?case
  proof (cases "k \<in> set (OBJECT_ID_FIELDS cls)")
    case True
    with Cons.prems(1) kv obtain w ids' where
      w: "ObjectId L v = Inr w" "translate_object_ids L cls d = Inr ids'" "ids = (k, w) # ids'"
      by (auto split: sum.splits)
    have new: "k \<notin> fst ` set pre" using Cons.prems(2) kv by auto
    have "dict_update ((pre @ [(k, w)]) @ d) ids' = (pre @ [(k, w)]) @ map (oid_conv L cls) d"
      using Cons.prems(2) kv by (intro Cons.IH [OF w(2)]) auto
    then show ?thesis
      using w True kv new by (simp add: update_in_middle oid_conv_pair)
  next
    case False
    with Cons.prems(1) kv have r: "translate_object_ids L cls d = Inr ids" by simp
    have "dict_update ((pre @ [(k, v)]) @ d) ids = (pre @ [(k, v)]) @ map (oid_conv L cls) d"
      using Cons.prems(2) kv by (intro Cons.IH [OF r]) auto
    then show ?thesis using False kv by (simp add: oid_conv_pair)
  qed
qed

lemma object_ids_again:
  "translate_object_ids L cls d = Inr ids \<Longrightarrow>
     \<exists>ids'. translate_object_ids L cls (map (oid_conv L cls) d) = Inr ids'"
proof (induction d arbitrary: ids)
  case Nil
  then show ?case by simp
next
  case (Cons kv d)
  obtain k v where kv: "kv = (k, v)" by (cases kv)
  show ?case
  proof (cases "k \<in> set (OBJECT_ID_FIELDS cls)")
    case True
    with Cons.prems(1) kv obtain w ids' where
      w: "ObjectId L v = Inr w" "translate_object_ids L cls d = Inr ids'"
      by (auto split: sum.splits)
    from Cons.IH [OF w(2)] obtain ids2 where
      "translate_object_ids L cls (map (oid_conv L cls) d) = Inr ids2" by blast
    then show ?thesis using True kv w(1) ObjectId_fixed [OF w(1)] by (simp add: oid_conv_pair)
  next
    case False
    with Cons.prems(1) kv have r: "translate_object_ids L cls d = Inr ids" by simp
    from Cons.IH [OF r] show ?thesis using False kv by (simp add: oid_conv_pair)
  qed
qed

lemma oid_conv_twice:
  "translate_object_ids L cls d = Inr ids \<Longrightarrow>
     map (oid_conv L cls) (map (oid_conv L cls) d) = map (oid_conv L cls) d"
proof (induction d arbitrary: ids)
  case Nil
  then show ?case by simp
next
  case (Cons kv d)
  obtain k v where kv: "kv = (k, v)" by (cases kv)
  show ?case
  proof (cases "k \<in> set (OBJECT_ID_FIELDS cls)")
    case True
    with Cons.prems(1) kv obtain w ids' where
      w: "ObjectId L v = Inr w" "translate_object_ids L cls d = Inr ids'"
      by (auto split: sum.splits)
    from Cons.IH [OF w(2)] show ?thesis
      using True kv w(1) ObjectId_fixed [OF w(1)] by (simp add: oid_conv_pair)
  next
    case False
    with Cons.prems(1) kv have r: "translate_object_ids L cls d = Inr ids" by simp
    from Cons.IH [OF r] show ?thesis using False kv by (simp add: oid_conv_pair)
  qed
qed

lemma oid_conv_keys: "map fst (map (oid_conv L cls) d) = map fst d"
  by (induction d) (auto simp: oid_conv_pair)

lemma timestamps_none:
  "\<forall>k\<in>fst ` set d. k \<notin> set (TIMESTAMP_FIELDS cls) \<Longrightarrow>
     translate_timestamps_loop L cls acc d = Inr acc"
  by (induction d arbitrary: acc) auto


lemma dict_update_keys_mono: "fst ` set d \<subseteq> fst ` set (dict_update d ps)"
proof (induction ps arbitrary: d)
  case Nil
  then show ?case by simp
next
  case (Cons kv ps)
  obtain k v where kv: "kv = (k, v)" by (cases kv)
  have "fst ` set d \<subseteq> fst ` set (AList.update k v d)" by (simp only: dom_update) blast
  also have "\<dots> \<subseteq> fst ` set (dict_update (AList.update k v d) ps)" by (rule Cons.IH)
  finally show ?case using kv by simp
qed

lemma translate_fields_fixed:
  assumes ids: "translate_object_ids L cls t1 = Inr ids"
    and dist: "distinct (map fst t1)"
    and plain: "\<forall>f\<in>fst ` set t1. length (split_key f) \<noteq> 2"
    and nots: "\<forall>k\<in>fst ` set t1. k \<notin> set (TIMESTAMP_FIELDS cls)"
  shows "translate_fields L cls t1 = Inr (map (oid_conv L cls) t1)
         \<and> translate_fields L cls (map (oid_conv L cls) t1) = Inr (map (oid_conv L cls) t1)"
proof -
  let ?t2 = "map (oid_conv L cls) t1"
  have keys: "map fst ?t2 = map fst t1" by (rule oid_conv_keys)
  have "set (map fst ?t2) = set (map fst t1)" by (simp only: keys)
  then have keyset: "fst ` set ?t2 = fst ` set t1" by (simp only: set_map)
  have ops1: "translate_operators t1 = Inr t1"
    using dist plain by (rule translate_operators_fixed)
  have upd1: "dict_update t1 ids = ?t2"
    using object_ids_closed [OF ids, of "[]"] dist by simp
  have ts1: "translate_timestamps L cls ?t2 = Inr []"
    using nots keyset by (simp add: translate_timestamps_def timestamps_none)
  have first: "translate_fields L cls t1 = Inr ?t2"
    by (simp add: translate_fields_def ops1 ids upd1 ts1)
  have d2: "distinct (map fst ?t2)" using dist by (simp only: keys)
  have p2: "\<forall>f\<in>fst ` set ?t2. length (split_key f) \<noteq> 2" using plain by (simp only: keyset)
  have ops2: "translate_operators ?t2 = Inr ?t2"
    using d2 p2 by (rule translate_operators_fixed)
  obtain ids2 where ids2: "translate_object_ids L cls ?t2 = Inr ids2"
    using object_ids_again [OF ids] by blast
  have "distinct (map fst ([] @ ?t2))" using d2 by (simp only: append_Nil)
  from object_ids_closed [OF ids2 this]
  have "dict_update ?t2 ids2 = map (oid_conv L cls) ?t2"
    by (simp only: append_Nil)
  then have upd2: "dict_update ?t2 ids2 = ?t2"
    using oid_conv_twice [OF ids] by simp
  have second: "translate_fields L cls ?t2 = Inr ?t2"
    by (simp add: translate_fields_def ops2 ids2 upd2 ts1)
  from first second show ?thesis by simp
qed

text \<open>
  C7 (amended): for every filter mapping on which \<open>translate_fields\<close> succeeds and
  whose translated filter has no timestamp-designated field, applying \<open>translate_fields\<close>
  to the translated filter returns that same filter.
\<close>

theorem translate_fields_idempotent:
  assumes ok: "translate_fields L cls params = Inr t"
    and nots: "\<forall>k\<in>fst ` set t. k \<notin> set (TIMESTAMP_FIELDS cls)"
  shows "translate_fields L cls t = Inr t"
proof -
  from ok obtain t1 ids stamps where
    t1: "translate_operators params = Inr t1"
    and ids: "translate_object_ids L cls t1 = Inr ids"
    and stamps: "translate_timestamps L cls (dict_update t1 ids) = Inr stamps"
    and t: "t = dict_update (dict_update t1 ids) stamps"
    by (auto simp: translate_fields_def Let_def split: sum.splits)
  have k1: "distinct (map fst t1)" "\<forall>f\<in>fst ` set t1. length (split_key f) \<noteq> 2"
    using translate_operators_keys [OF t1] by simp_all
  let ?t2 = "map (oid_conv L cls) t1"
  have upd1: "dict_update t1 ids = ?t2"
    using object_ids_closed [OF ids, of "[]"] k1(1) by simp
  have sub: "fst ` set ?t2 \<subseteq> fst ` set t" unfolding t upd1 by (rule dict_update_keys_mono)
  have "set (map fst ?t2) = set (map fst t1)" by (simp only: oid_conv_keys)
  then have "fst ` set ?t2 = fst ` set t1" by (simp only: set_map)
  with sub have "fst ` set t1 \<subseteq> fst ` set t" by (simp only:)
  then have nots1: "\<forall>k\<in>fst ` set t1. k \<notin> set (TIMESTAMP_FIELDS cls)"
    using nots by (meson subsetD)
  have fixed: "translate_fields L cls t1 = Inr ?t2"
     "translate_fields L cls ?t2 = Inr ?t2"
    using translate_fields_fixed [OF ids k1 nots1] by simp_all
  have "translate_fields L cls params = translate_fields L cls t1"
    using t1 ids stamps translate_operators_fixed [OF k1]
    by (simp add: translate_fields_def)
  then have "t = ?t2" using ok fixed(1) by simp
  then show ?thesis using fixed(2) by simp
qed

lemma example_lib_oid:
  "objectid_of_str example_lib ''0123456789abcdef01234567'' = Some (Oid ''0123456789abcdef01234567'')"
  by (simp add: example_lib_def)

theorem translate_fields_idempotent_witness:
  "translate_fields example_lib CNode
      [(''parent'', Str ''0123456789abcdef01234567''), (''state__ne'', Str ''done'')]
     = Inr [(''parent'', ObjId (Oid ''0123456789abcdef01234567'')),
            (''state'', Dict [(''ne'', Str ''done'')])]
   \<and> translate_fields example_lib CNode
      [(''parent'', ObjId (Oid ''0123456789abcdef01234567'')),
       (''state'', Dict [(''ne'', Str ''done'')])]
     = Inr [(''parent'', ObjId (Oid ''0123456789abcdef01234567'')),
            (''state'', Dict [(''ne'', Str ''done'')])]"
proof -
  let ?P = "[(''parent'', Str ''0123456789abcdef01234567''), (''state__ne'', Str ''done'')]"
  let ?T = "[(''parent'', ObjId (Oid ''0123456789abcdef01234567'')),
            (''state'', Dict [(''ne'', Str ''done'')])]"
  have h1: "translate_fields example_lib CNode ?P = Inr ?T"
    by (simp add: translate_fields_def translate_operators_def translate_operators_step_def
        split_key_def get_truthy_def translate_timestamps_def node_timestamp_fields_def
        example_lib_oid)
  have h2: "\<forall>k\<in>fst ` set ?T. k \<notin> set (TIMESTAMP_FIELDS CNode)"
    by (simp add: node_timestamp_fields_def)
  from translate_fields_idempotent [OF h1 h2] h1 show ?thesis by simp
qed

text \<open>
  With a timestamp-designated field the second translation does not return the filter:
  \<open>datetime.fromisoformat\<close> is handed the \<open>datetime\<close> of the first translation and
  raises \<open>TypeError\<close>.
\<close>

theorem translate_fields_idempotent_counterexample:
  "translate_fields example_lib CNode [(''created'', Str ''2024-01-01T00:00:00'')]
     = Inr [(''created'', DT (Datetime 63839664000000000 None))]
   \<and> translate_fields example_lib CNode [(''created'', DT (Datetime 63839664000000000 None))]
     = Inl TypeError"
  by (simp add: translate_fields_def translate_operators_def translate_operators_step_def
        split_key_def get_truthy_def translate_timestamps_def node_timestamp_fields_def
        example_lib_def)

subsection \<open>Timestamp fields\<close>

lemma fromisoformat_Inr:
  "datetime_fromisoformat L v = Inr t \<Longrightarrow> \<exists>s d. v = Str s \<and> fromisoformat L s = Some d \<and> t = DT d"
  by (cases v) (auto split: option.splits)

lemma timestamp_ops_frame:
  "translate_timestamp_ops L key tp ops = Inr tp' \<Longrightarrow>
     (\<forall>k. k \<noteq> key \<longrightarrow> map_of tp' k = map_of tp k) \<and>
     (distinct (map fst tp) \<longrightarrow> distinct (map fst tp'))"
proof (induction ops arbitrary: tp)
  case Nil
  then show ?case by simp
next
  case (Cons ov ops)
  obtain opn v where ov: "ov = (opn, v)" by (cases ov)
  from Cons.prems ov obtain x where
    run: "translate_timestamp_ops L key (AList.update key x tp) ops = Inr tp'"
    by (auto split: option.splits pyval.splits sum.splits)
  from Cons.IH [OF run] show ?case
    by (simp add: update_conv' distinct_update)
qed

lemma timestamp_ops_parsed:
  assumes "translate_timestamp_ops L key tp ops = Inr tp'"
    and "distinct (map fst ops)"
    and "map_of tp key = None \<or> (\<exists>d0. map_of tp key = Some (Dict d0) \<and> d0 \<noteq> [])"
    and "ops \<noteq> []"
  shows "\<exists>d'. map_of tp' key = Some (Dict d') \<and> d' \<noteq> [] \<and>
          (\<forall>opn v. map_of ops opn = Some v \<longrightarrow>
             (\<exists>s d. v = Str s \<and> fromisoformat L s = Some d \<and> map_of d' opn = Some (DT d))) \<and>
          (\<forall>d0 opn. map_of tp key = Some (Dict d0) \<longrightarrow> opn \<notin> fst ` set ops \<longrightarrow>
             map_of d' opn = map_of d0 opn)"
  using assms
proof (induction ops arbitrary: tp)
  case Nil
  then show ?case by simp
next
  case (Cons ov ops)
  obtain opn v where ov: "ov = (opn, v)" by (cases ov)
  have fresh: "opn \<notin> fst ` set ops" and dist: "distinct (map fst ops)"
    using Cons.prems(2) ov by auto
  define d0 where "d0 = (case map_of tp key of Some (Dict d) \<Rightarrow> d | _ \<Rightarrow> [])"
  have start: "map_of tp key = None \<and> d0 = [] \<or> map_of tp key = Some (Dict d0) \<and> d0 \<noteq> []"
    using Cons.prems(3) by (auto simp: d0_def)
  have gt: "get_truthy tp key = (if d0 = [] then None else Some (Dict d0))"
    using start by (auto simp: get_truthy_def)
  obtain t where t: "datetime_fromisoformat L v = Inr t"
    using Cons.prems(1) ov gt by (auto split: sum.splits if_splits)
  then obtain s d where sd: "v = Str s" "fromisoformat L s = Some d" "t = DT d"
    using fromisoformat_Inr by blast
  define d1 where "d1 = AList.update opn t d0"
  define tp1 where "tp1 = AList.update key (Dict d1) tp"
  have run: "translate_timestamp_ops L key tp1 ops = Inr tp'"
    using Cons.prems(1) ov gt t by (auto simp: tp1_def d1_def split: if_splits)
  have m1: "map_of tp1 key = Some (Dict d1)" by (simp add: tp1_def update_conv')
  have ne1: "d1 \<noteq> []" by (simp add: d1_def update_nonempty)
  have at1: "map_of d1 opn = Some (DT d)" by (simp add: d1_def update_conv' sd)
  have keep1: "\<forall>opn'. opn' \<noteq> opn \<longrightarrow> map_of d1 opn' = map_of d0 opn'"
    by (simp add: d1_def update_conv')
  have keep0: "\<forall>d0' opn'. map_of tp key = Some (Dict d0') \<longrightarrow> opn' \<noteq> opn \<longrightarrow>
      map_of d1 opn' = map_of d0' opn'"
    using start keep1 by auto
  show ?case
  proof (cases "ops = []")
    case True
    then have "tp' = tp1" using run by simp
    then show ?thesis using m1 ne1 at1 keep0 ov sd True by auto
  next
    case False
    have "map_of tp1 key = None \<or> (\<exists>d0. map_of tp1 key = Some (Dict d0) \<and> d0 \<noteq> [])"
      using m1 ne1 by simp
    from Cons.IH [OF run dist this False] obtain d' where
      d': "map_of tp' key = Some (Dict d')" "d' \<noteq> []"
      "\<forall>opn v. map_of ops opn = Some v \<longrightarrow>
             (\<exists>s d. v = Str s \<and> fromisoformat L s = Some d \<and> map_of d' opn = Some (DT d))"
      "\<forall>d0 opn. map_of tp1 key = Some (Dict d0) \<longrightarrow> opn \<notin> fst ` set ops \<longrightarrow>
             map_of d' opn = map_of d0 opn"
      by blast
    have keep: "\<forall>opn'. opn' \<notin> fst ` set ops \<longrightarrow> map_of d' opn' = map_of d1 opn'"
      using d'(4) m1 by simp
    have a: "\<forall>opn' v'. map_of (ov # ops) opn' = Some v' \<longrightarrow>
             (\<exists>s d. v' = Str s \<and> fromisoformat L s = Some d \<and> map_of d' opn' = Some (DT d))"
      using d'(3) keep fresh at1 sd ov by auto
    have b: "\<forall>d0' opn'. map_of tp key = Some (Dict d0') \<longrightarrow> opn' \<notin> fst ` set (ov # ops) \<longrightarrow>
             map_of d' opn' = map_of d0' opn'"
      using keep keep0 ov by auto
    from d'(1,2) a b show ?thesis by blast
  qed
qed


lemma timestamps_loop_inv:
  assumes "translate_timestamps_loop L cls tp xs = Inr r"
    and "distinct (map fst xs)"
    and "\<forall>k\<in>fst ` set xs. map_of tp k = None"
    and "distinct (map fst tp)"
  shows "distinct (map fst r) \<and>
     (\<forall>k. k \<notin> fst ` set xs \<longrightarrow> map_of r k = map_of tp k) \<and>
     (\<forall>k s. (k, Str s) \<in> set xs \<longrightarrow> k \<in> set (TIMESTAMP_FIELDS cls) \<longrightarrow>
        (\<exists>d. fromisoformat L s = Some d \<and> map_of r k = Some (DT d))) \<and>
     (\<forall>k ops. (k, Dict ops) \<in> set xs \<longrightarrow> k \<in> set (TIMESTAMP_FIELDS cls) \<longrightarrow>
        ops \<noteq> [] \<longrightarrow> distinct (map fst ops) \<longrightarrow>
        (\<exists>d'. map_of r k = Some (Dict d') \<and>
           (\<forall>opn v. map_of ops opn = Some v \<longrightarrow>
              (\<exists>s d. v = Str s \<and> fromisoformat L s = Some d \<and> map_of d' opn = Some (DT d)))))"
  using assms
proof (induction xs arbitrary: tp)
  case Nil
  then show ?case by simp
next
  case (Cons kv xs)
  obtain k v where kv: "kv = (k, v)" by (cases kv)
  have fresh: "k \<notin> fst ` set xs" and dist: "distinct (map fst xs)"
    using Cons.prems(2) kv by auto
  have only: "\<And>x. (k, x) \<in> set (kv # xs) \<Longrightarrow> x = v"
    using fresh kv by force
  have none: "map_of tp k = None" using Cons.prems(3) kv by simp
  have "\<exists>tp1. translate_timestamps_loop L cls tp1 xs = Inr r \<and>
          (\<forall>k'. k' \<noteq> k \<longrightarrow> map_of tp1 k' = map_of tp k') \<and> distinct (map fst tp1) \<and>
          (k \<in> set (TIMESTAMP_FIELDS cls) \<longrightarrow>
             (\<forall>s. v = Str s \<longrightarrow> (\<exists>d. fromisoformat L s = Some d \<and> map_of tp1 k = Some (DT d))) \<and>
             (\<forall>ops. v = Dict ops \<longrightarrow> ops \<noteq> [] \<longrightarrow> distinct (map fst ops) \<longrightarrow>
                (\<exists>d'. map_of tp1 k = Some (Dict d') \<and>
                   (\<forall>opn x. map_of ops opn = Some x \<longrightarrow>
                      (\<exists>s d. x = Str s \<and> fromisoformat L s = Some d \<and>
                             map_of d' opn = Some (DT d))))))"
  proof (cases "k \<in> set (TIMESTAMP_FIELDS cls)")
    case False
    then show ?thesis using Cons.prems(1,4) kv by (intro exI [of _ tp]) simp
  next
    case True
    show ?thesis
    proof (cases v)
      case (Dict ops)
      with True Cons.prems(1) kv obtain tp1 where
        tp1: "translate_timestamp_ops L k tp ops = Inr tp1"
             "translate_timestamps_loop L cls tp1 xs = Inr r"
        by (auto split: sum.splits)
      have frame: "\<forall>k'. k' \<noteq> k \<longrightarrow> map_of tp1 k' = map_of tp k'" "distinct (map fst tp1)"
        using timestamp_ops_frame [OF tp1(1)] Cons.prems(4) by simp_all
      have "ops \<noteq> [] \<longrightarrow> distinct (map fst ops) \<longrightarrow>
                (\<exists>d'. map_of tp1 k = Some (Dict d') \<and>
                   (\<forall>opn x. map_of ops opn = Some x \<longrightarrow>
                      (\<exists>s d. x = Str s \<and> fromisoformat L s = Some d \<and>
                             map_of d' opn = Some (DT d))))"
      proof (intro impI)
        assume ne: "ops \<noteq> []" and d: "distinct (map fst ops)"
        have "map_of tp k = None \<or> (\<exists>d0. map_of tp k = Some (Dict d0) \<and> d0 \<noteq> [])"
          using none by simp
        from timestamp_ops_parsed [OF tp1(1) d this ne]
        show "\<exists>d'. map_of tp1 k = Some (Dict d') \<and>
                   (\<forall>opn x. map_of ops opn = Some x \<longrightarrow>
                      (\<exists>s d. x = Str s \<and> fromisoformat L s = Some d \<and>
                             map_of d' opn = Some (DT d)))"
          by blast
      qed
      then show ?thesis using tp1(2) frame Dict by (intro exI [of _ tp1]) simp
    next
      case (Str s)
      with True Cons.prems(1) kv obtain t where
        t: "datetime_fromisoformat L v = Inr t"
           "translate_timestamps_loop L cls (AList.update k t tp) xs = Inr r"
        by (auto split: sum.splits option.splits)
      from fromisoformat_Inr [OF t(1)] obtain d where
        d: "fromisoformat L s = Some d" "t = DT d" using Str by auto
      show ?thesis using t(2) d Str Cons.prems(4)
        by (intro exI [of _ "AList.update k t tp"]) (simp add: update_conv' distinct_update)
    next
      case (ObjId i)
      with True Cons.prems(1) kv show ?thesis by simp
    next
      case (DT x)
      with True Cons.prems(1) kv show ?thesis by simp
    qed
  qed
  then obtain tp1 where
    run: "translate_timestamps_loop L cls tp1 xs = Inr r"
    and frame: "\<forall>k'. k' \<noteq> k \<longrightarrow> map_of tp1 k' = map_of tp k'"
    and d1: "distinct (map fst tp1)"
    and here: "k \<in> set (TIMESTAMP_FIELDS cls) \<longrightarrow>
             (\<forall>s. v = Str s \<longrightarrow> (\<exists>d. fromisoformat L s = Some d \<and> map_of tp1 k = Some (DT d))) \<and>
             (\<forall>ops. v = Dict ops \<longrightarrow> ops \<noteq> [] \<longrightarrow> distinct (map fst ops) \<longrightarrow>
                (\<exists>d'. map_of tp1 k = Some (Dict d') \<and>
                   (\<forall>opn x. map_of ops opn = Some x \<longrightarrow>
                      (\<exists>s d. x = Str s \<and> fromisoformat L s = Some d \<and>
                             map_of d' opn = Some (DT d)))))"
    by blast
  have none1: "\<forall>k'\<in>fst ` set xs. map_of tp1 k' = None"
  proof
    fix k' assume m: "k' \<in> fst ` set xs"
    then have "k' \<noteq> k" using fresh by blast
    moreover have "k' \<in> fst ` set (kv # xs)" using m by auto
    from bspec [OF Cons.prems(3) this] have "map_of tp k' = None" .
    ultimately show "map_of tp1 k' = None" using frame by simp
  qed
  note ih = Cons.IH [OF run dist none1 d1]
  have atk: "map_of r k = map_of tp1 k" using ih fresh by blast
  have c1: "distinct (map fst r)" using ih by blast
  have c2: "\<forall>k'. k' \<notin> fst ` set (kv # xs) \<longrightarrow> map_of r k' = map_of tp k'"
    using ih frame kv by auto
  have c3: "\<forall>k' s. (k', Str s) \<in> set (kv # xs) \<longrightarrow> k' \<in> set (TIMESTAMP_FIELDS cls) \<longrightarrow>
        (\<exists>d. fromisoformat L s = Some d \<and> map_of r k' = Some (DT d))"
  proof (intro allI impI)
    fix k' s assume m: "(k', Str s) \<in> set (kv # xs)" and ts: "k' \<in> set (TIMESTAMP_FIELDS cls)"
    show "\<exists>d. fromisoformat L s = Some d \<and> map_of r k' = Some (DT d)"
    proof (cases "k' = k")
      case True
      then have "v = Str s" using only m by auto
      then show ?thesis using here ts True atk by auto
    next
      case False
      then have "(k', Str s) \<in> set xs" using m kv by auto
      then show ?thesis using ih ts by blast
    qed
  qed
  have c4: "\<forall>k' ops. (k', Dict ops) \<in> set (kv # xs) \<longrightarrow> k' \<in> set (TIMESTAMP_FIELDS cls) \<longrightarrow>
        ops \<noteq> [] \<longrightarrow> distinct (map fst ops) \<longrightarrow>
        (\<exists>d'. map_of r k' = Some (Dict d') \<and>
           (\<forall>opn v. map_of ops opn = Some v \<longrightarrow>
              (\<exists>s d. v = Str s \<and> fromisoformat L s = Some d \<and> map_of d' opn = Some (DT d))))"
  proof (intro allI impI)
    fix k' ops assume m: "(k', Dict ops) \<in> set (kv # xs)"
      and ts: "k' \<in> set (TIMESTAMP_FIELDS cls)" and ne: "ops \<noteq> []"
      and d: "distinct (map fst ops)"
    show "\<exists>d'. map_of r k' = Some (Dict d') \<and>
           (\<forall>opn v. map_of ops opn = Some v \<longrightarrow>
              (\<exists>s d. v = Str s \<and> fromisoformat L s = Some d \<and> map_of d' opn = Some (DT d)))"
    proof (cases "k' = k")
      case True
      then have "v = Dict ops" using only m by auto
      then show ?thesis using here ts True atk ne d by auto
    next
      case False
      then have "(k', Dict ops) \<in> set xs" using m kv by auto
      then show ?thesis using ih ts ne d by blast
    qed
  qed
  from c1 c2 c3 c4 show ?case by blast
qed

lemma dict_update_map_of:
  "distinct (map fst ps) \<Longrightarrow>
     map_of (dict_update d ps) k = (case map_of ps k of Some v \<Rightarrow> Some v | None \<Rightarrow> map_of d k)"
proof (induction ps arbitrary: d)
  case Nil
  then show ?case by simp
next
  case (Cons kv ps)
  obtain k' v' where kv: "kv = (k', v')" by (cases kv)
  have d: "distinct (map fst ps)" and fresh: "k' \<notin> fst ` set ps"
    using Cons.prems kv by auto
  have "map_of ps k' = None" using fresh by (simp add: map_of_eq_None_iff)
  then show ?case using Cons.IH [OF d, of "AList.update k' v' d"] kv
    by (auto simp: update_conv' split: option.splits)
qed

lemma timestamp_field_plain:
  "k \<in> set (TIMESTAMP_FIELDS cls) \<Longrightarrow> k \<notin> set (OBJECT_ID_FIELDS cls) \<and> split_key k = [k]"
  by (cases cls) (auto simp: node_timestamp_fields_def split_key_def)

lemma oid_conv_other:
  "k \<notin> set (OBJECT_ID_FIELDS cls) \<Longrightarrow> (k, v) \<in> set d \<Longrightarrow> (k, v) \<in> set (map (oid_conv L cls) d)"
  by (force simp: oid_conv_def)


lemma timestamp_strings_parsed:
  assumes dist: "distinct (map fst params)"
    and noclash: "\<forall>k\<in>fst ` set params. \<forall>p opn. split_key k = [p, opn] \<longrightarrow> p \<notin> fst ` set params"
    and ok: "translate_fields L cls params = Inr t"
    and item: "(k, Str s) \<in> set params"
  shows "(k \<in> set (TIMESTAMP_FIELDS cls) \<longrightarrow>
           (\<exists>d. fromisoformat L s = Some d \<and> map_of t k = Some (DT d))) \<and>
         (\<forall>f opn. split_key k = [f, opn] \<longrightarrow> f \<in> set (TIMESTAMP_FIELDS cls) \<longrightarrow>
           (\<exists>d sub. fromisoformat L s = Some d \<and> map_of t f = Some (Dict sub) \<and>
                    map_of sub opn = Some (DT d)))"
proof -
  from ok obtain t1 ids stamps where
    t1: "translate_operators params = Inr t1"
    and ids: "translate_object_ids L cls t1 = Inr ids"
    and stamps: "translate_timestamps L cls (dict_update t1 ids) = Inr stamps"
    and t: "t = dict_update (dict_update t1 ids) stamps"
    by (auto simp: translate_fields_def Let_def split: sum.splits)
  have inv: "ops_inv params t1"
    using translate_operators_loop_inv [OF ops_inv_empty, of params] dist noclash t1
    by (auto simp: translate_operators_def)
  then have d1: "distinct (map fst t1)" by (simp add: ops_inv_def)
  let ?t2 = "map (oid_conv L cls) t1"
  have upd1: "dict_update t1 ids = ?t2"
    using object_ids_closed [OF ids, of "[]"] d1 by simp
  have d2: "distinct (map fst ?t2)" using d1 by (simp only: oid_conv_keys)
  have run: "translate_timestamps_loop L cls [] ?t2 = Inr stamps"
    using stamps upd1 by (simp add: translate_timestamps_def)
  have e1: "\<forall>k\<in>fst ` set ?t2. map_of [] k = (None :: pyval option)" by simp
  have e2: "distinct (map fst ([] :: pydict))" by simp
  note ts = timestamps_loop_inv [OF run d2 e1 e2]
  have ds: "distinct (map fst stamps)" using ts by simp
  have final: "\<And>k x. map_of stamps k = Some x \<Longrightarrow> map_of t k = Some x"
    unfolding t upd1 by (simp add: dict_update_map_of [OF ds])
  have direct: "k \<in> set (TIMESTAMP_FIELDS cls) \<longrightarrow>
           (\<exists>d. fromisoformat L s = Some d \<and> map_of t k = Some (DT d))"
  proof
    assume tsk: "k \<in> set (TIMESTAMP_FIELDS cls)"
    then have plain: "length (split_key k) \<noteq> 2" and nid: "k \<notin> set (OBJECT_ID_FIELDS cls)"
      using timestamp_field_plain [of k cls] by simp_all
    have "map_of t1 k = Some (Str s)" using inv item plain unfolding ops_inv_def by blast
    then have "(k, Str s) \<in> set t1" by (rule map_of_SomeD)
    then have "(k, Str s) \<in> set ?t2" using nid by (rule oid_conv_other [rotated])
    then obtain d where "fromisoformat L s = Some d" "map_of stamps k = Some (DT d)"
      using ts tsk by blast
    then show "\<exists>d. fromisoformat L s = Some d \<and> map_of t k = Some (DT d)"
      using final by blast
  qed
  have nested: "\<forall>f opn. split_key k = [f, opn] \<longrightarrow> f \<in> set (TIMESTAMP_FIELDS cls) \<longrightarrow>
           (\<exists>d sub. fromisoformat L s = Some d \<and> map_of t f = Some (Dict sub) \<and>
                    map_of sub opn = Some (DT d))"
  proof (intro allI impI)
    fix f opn assume sp: "split_key k = [f, opn]" and tsf: "f \<in> set (TIMESTAMP_FIELDS cls)"
    have nid: "f \<notin> set (OBJECT_ID_FIELDS cls)"
      using timestamp_field_plain [OF tsf] by simp
    obtain dd where dd: "map_of t1 f = Some (Dict dd)" "map_of dd opn = Some (Str s)"
      using inv item sp unfolding ops_inv_def by blast
    have "k \<in> fst ` set params" using item by force
    then have "f \<notin> fst ` set params" using noclash sp by blast
    then have "(f, Dict dd) \<notin> set params" by force
    then have props: "dd \<noteq> []" "distinct (map fst dd)"
      using inv dd(1) unfolding ops_inv_def by blast+
    have "(f, Dict dd) \<in> set t1" using dd(1) by (rule map_of_SomeD)
    then have "(f, Dict dd) \<in> set ?t2" using nid by (rule oid_conv_other [rotated])
    then obtain sub where sub: "map_of stamps f = Some (Dict sub)"
      "\<forall>opn v. map_of dd opn = Some v \<longrightarrow>
              (\<exists>s d. v = Str s \<and> fromisoformat L s = Some d \<and> map_of sub opn = Some (DT d))"
      using ts tsf props by blast
    then obtain d where "fromisoformat L s = Some d" "map_of sub opn = Some (DT d)"
      using dd(2) by blast
    then show "\<exists>d sub. fromisoformat L s = Some d \<and> map_of t f = Some (Dict sub) \<and>
                    map_of sub opn = Some (DT d)"
      using final [OF sub(1)] by blast
  qed
  from direct nested show ?thesis by blast
qed

text \<open>
  C5: whatever \<open>datetime.fromisoformat\<close> returns for the text \<open>2024-01-01T00:00:00\<close>, say
  \<open>parsed\<close>, \<open>translate_fields\<close> maps \<open>{"state": "done", "created__gte": "2024-01-01T00:00:00"}\<close>
  to \<open>{"state": "done", "created": {"gte": parsed}}\<close>, for every class. More generally,
  when \<open>translate_fields\<close> succeeds on a mapping (with distinct keys, no base field of an
  operator key being a key itself), every string stored under a timestamp-designated key
  is replaced by its parsed \<open>datetime\<close>, and every string given with an operator on a
  timestamp-designated field is found parsed under that operator inside the field's
  sub-mapping.
\<close>

theorem translate_fields_timestamps:
  "(fromisoformat L ''2024-01-01T00:00:00'' = Some parsed \<longrightarrow>
      translate_fields L cls
        [(''state'', Str ''done''), (''created__gte'', Str ''2024-01-01T00:00:00'')]
      = Inr [(''state'', Str ''done''), (''created'', Dict [(''gte'', DT parsed)])])
   \<and> (distinct (map fst params) \<and>
        (\<forall>k\<in>fst ` set params. \<forall>p opn. split_key k = [p, opn] \<longrightarrow> p \<notin> fst ` set params) \<and>
        translate_fields L cls params = Inr t \<and>
        (k, Str s) \<in> set params \<longrightarrow>
          (k \<in> set (TIMESTAMP_FIELDS cls) \<longrightarrow>
             (\<exists>d. fromisoformat L s = Some d \<and> map_of t k = Some (DT d))) \<and>
          (\<forall>f opn. split_key k = [f, opn] \<longrightarrow> f \<in> set (TIMESTAMP_FIELDS cls) \<longrightarrow>
             (\<exists>d sub. fromisoformat L s = Some d \<and> map_of t f = Some (Dict sub) \<and>
                      map_of sub opn = Some (DT d))))"
proof (intro conjI impI)
  assume "fromisoformat L ''2024-01-01T00:00:00'' = Some parsed"
  then show "translate_fields L cls
        [(''state'', Str ''done''), (''created__gte'', Str ''2024-01-01T00:00:00'')]
      = Inr [(''state'', Str ''done''), (''created'', Dict [(''gte'', DT parsed)])]"
    by (cases cls)
       (simp_all add: translate_fields_def translate_operators_def translate_operators_step_def
          split_key_def get_truthy_def translate_timestamps_def node_timestamp_fields_def)
next
  assume a: "distinct (map fst params) \<and>
        (\<forall>k\<in>fst ` set params. \<forall>p opn. split_key k = [p, opn] \<longrightarrow> p \<notin> fst ` set params) \<and>
        translate_fields L cls params = Inr t \<and>
        (k, Str s) \<in> set params"
  then have g: "(k \<in> set (TIMESTAMP_FIELDS cls) \<longrightarrow>
             (\<exists>d. fromisoformat L s = Some d \<and> map_of t k = Some (DT d))) \<and>
          (\<forall>f opn. split_key k = [f, opn] \<longrightarrow> f \<in> set (TIMESTAMP_FIELDS cls) \<longrightarrow>
             (\<exists>d sub. fromisoformat L s = Some d \<and> map_of t f = Some (Dict sub) \<and>
                      map_of sub opn = Some (DT d)))"
    using timestamp_strings_parsed [of params L cls t k s] by blast
  {
    assume "k \<in> set (TIMESTAMP_FIELDS cls)"
    then show "\<exists>d. fromisoformat L s = Some d \<and> map_of t k = Some (DT d)" using g by blast
  }
  show "\<forall>f opn. split_key k = [f, opn] \<longrightarrow> f \<in> set (TIMESTAMP_FIELDS cls) \<longrightarrow>
             (\<exists>d sub. fromisoformat L s = Some d \<and> map_of t f = Some (Dict sub) \<and>
                      map_of sub opn = Some (DT d))" using g by blast
qed

theorem translate_fields_timestamps_witness:
  "fromisoformat example_lib ''2024-01-01T00:00:00'' = Some (Datetime 63839664000000000 None)
   \<and> translate_fields example_lib CRegression
        [(''state'', Str ''done''), (''created__gte'', Str ''2024-01-01T00:00:00'')]
      = Inr [(''state'', Str ''done''),
             (''created'', Dict [(''gte'', DT (Datetime 63839664000000000 None))])]
   \<and> distinct (map fst [(''updated'', Str ''2024-01-01T00:00:00''),
                        (''created__gte'', Str ''2024-01-01T00:00:00'')])
   \<and> translate_fields example_lib CRegression
        [(''updated'', Str ''2024-01-01T00:00:00''),
         (''created__gte'', Str ''2024-01-01T00:00:00'')]
      = Inr [(''updated'', DT (Datetime 63839664000000000 None)),
             (''created'', Dict [(''gte'', DT (Datetime 63839664000000000 None))])]"
proof -
  let ?s = "''2024-01-01T00:00:00''"
  let ?d = "Datetime 63839664000000000 None"
  let ?P = "[(''updated'', Str ?s), (''created__gte'', Str ?s)]"
  let ?T = "[(''updated'', DT ?d), (''created'', Dict [(''gte'', DT ?d)])]"
  have h0: "fromisoformat example_lib ?s = Some ?d" by (simp add: example_lib_def)
  have h1: "distinct (map fst ?P)" by simp
  have h2: "\<forall>k\<in>fst ` set ?P. \<forall>p opn. split_key k = [p, opn] \<longrightarrow> p \<notin> fst ` set ?P"
    by (simp add: split_key_def)
  have h3: "translate_fields example_lib CRegression ?P = Inr ?T"
    by (simp add: translate_fields_def translate_operators_def translate_operators_step_def
          split_key_def get_truthy_def translate_timestamps_def node_timestamp_fields_def h0)
  have h4: "(''updated'', Str ?s) \<in> set ?P" by simp
  from translate_fields_timestamps
         [where L = example_lib and parsed = ?d and cls = CRegression and params = ?P
            and t = ?T and k = "''updated''" and s = ?s]
    h0 h1 h2 h3 h4
  show ?thesis by simp
qed

subsection \<open>Regression synthesis\<close>

lemma compare_fields_None_iff:
  "compare_fields failing passing fs = None \<longleftrightarrow> fields_agree failing passing fs"
  by (induction fs) (auto simp: fields_agree_def split: sum.splits)

lemma compare_fields_first_mismatch:
  assumes "fields_agree failing passing pre"
    and "attrgetter field failing = Inr a" "attrgetter field passing = Inr b" "a \<noteq> b"
  shows "compare_fields failing passing (pre @ field # post) =
           Some (RuntimeError (node_id passing) (node_id failing) (FieldDiffers field a b))"
  using assms by (induction pre) (auto simp: fields_agree_def)

lemma datetime_gt_asym: "datetime_gt a b = Inr True \<Longrightarrow> datetime_gt b a = Inr False"
  by (cases a; cases b; cases "utcoffset a"; cases "utcoffset b") auto

lemma fields_agree_data:
  assumes "fields_agree failing passing cmp_fields"
  shows "\<exists>r a d f c p.
           data_kernel_revision (data failing) = Inr r \<and> data_arch (data failing) = Inr a \<and>
           data_defconfig (data failing) = Inr d \<and> data_config_full (data failing) = Inr f \<and>
           data_compiler (data failing) = Inr c \<and> data_platform (data failing) = Inr p"
proof -
  have g: "\<And>field. field \<in> set cmp_fields \<Longrightarrow> \<exists>v. attrgetter field failing = Inr v"
    using assms by (auto simp: fields_agree_def)
  have "\<exists>v. attrgetter ''data.kernel_revision'' failing = Inr v" by (rule g) (simp add: cmp_fields_def)
  then have 1: "\<exists>r. data_kernel_revision (data failing) = Inr r"
    by (cases "data_kernel_revision (data failing)") (auto simp: attrgetter_def)
  have "\<exists>v. attrgetter ''data.arch'' failing = Inr v" by (rule g) (simp add: cmp_fields_def)
  then have 2: "\<exists>r. data_arch (data failing) = Inr r"
    by (cases "data_arch (data failing)") (auto simp: attrgetter_def)
  have "\<exists>v. attrgetter ''data.defconfig'' failing = Inr v" by (rule g) (simp add: cmp_fields_def)
  then have 3: "\<exists>r. data_defconfig (data failing) = Inr r"
    by (cases "data_defconfig (data failing)") (auto simp: attrgetter_def)
  have "\<exists>v. attrgetter ''data.config_full'' failing = Inr v" by (rule g) (simp add: cmp_fields_def)
  then have 4: "\<exists>r. data_config_full (data failing) = Inr r"
    by (cases "data_config_full (data failing)") (auto simp: attrgetter_def)
  have "\<exists>v. attrgetter ''data.compiler'' failing = Inr v" by (rule g) (simp add: cmp_fields_def)
  then have 5: "\<exists>r. data_compiler (data failing) = Inr r"
    by (cases "data_compiler (data failing)") (auto simp: attrgetter_def)
  have "\<exists>v. attrgetter ''data.platform'' failing = Inr v" by (rule g) (simp add: cmp_fields_def)
  then have 6: "\<exists>r. data_platform (data failing) = Inr r"
    by (cases "data_platform (data failing)") (auto simp: attrgetter_def)
  from 1 2 3 4 5 6 show ?thesis by blast
qed


lemma create_regression_builds:
  assumes agree: "fields_agree failing passing cmp_fields"
    and order: "datetime_gt (created passing) (created failing) = Inr False"
    and rp: "result passing = Some PASS" and rf: "result failing = Some FAIL"
  shows "\<exists>r d. create_regression clk to_json failing passing False = Inr (AsObject r) \<and>
           pyclass r = CRegression \<and> kind r = ''regression'' \<and>
           Node.name r = Node.name failing \<and> path r = path failing \<and>
           group r = group failing \<and> state r = DONE \<and> result r = Some FAIL \<and>
           data r = RegressionD d \<and>
           fail_node d = node_id failing \<and> pass_node d = node_id passing \<and>
           node_sequence d = Some [] \<and>
           data_arch (data failing) = Inr (RegressionData.arch d) \<and>
           data_defconfig (data failing) = Inr (RegressionData.defconfig d) \<and>
           data_config_full (data failing) = Inr (RegressionData.config_full d) \<and>
           data_compiler (data failing) = Inr (RegressionData.compiler d) \<and>
           data_platform (data failing) = Inr (RegressionData.platform d) \<and>
           data_kernel_revision (data failing) = Inr (failed_kernel_revision d)"
proof -
  from fields_agree_data [OF agree] obtain r a d f c p where
    v: "data_kernel_revision (data failing) = Inr r" "data_arch (data failing) = Inr a"
       "data_defconfig (data failing) = Inr d" "data_config_full (data failing) = Inr f"
       "data_compiler (data failing) = Inr c" "data_platform (data failing) = Inr p"
    by blast
  have cmp: "compare_fields failing passing cmp_fields = None"
    using agree by (simp add: compare_fields_None_iff)
  show ?thesis
    by (simp add: create_regression_def cmp order rp rf v Let_def)
qed

text \<open>
  C2: when the fail node and the pass node agree on the nine compared fields (each
  getter succeeds on both, with equal values), the pass node was created before the fail
  node, and their results are PASS and FAIL, \<open>create_regression\<close> returns a Regression
  whose name, path and group are the fail node's, whose \<open>data.fail_node\<close> and
  \<open>data.pass_node\<close> are the identifiers of the two nodes, whose data copies the fail
  node's arch, defconfig, config_full, compiler, platform and kernel revision, and whose
  state is DONE. When instead the two nodes differ on a compared field, all fields before
  it agreeing, \<open>create_regression\<close> raises the error that names that field and the two
  values.
\<close>

theorem create_regression_ok:
  "(fields_agree failing passing cmp_fields \<and>
    datetime_gt (created failing) (created passing) = Inr True \<and>
    result passing = Some PASS \<and> result failing = Some FAIL \<longrightarrow>
      (\<exists>r d. create_regression clk to_json failing passing False = Inr (AsObject r) \<and>
           pyclass r = CRegression \<and> kind r = ''regression'' \<and>
           Node.name r = Node.name failing \<and> path r = path failing \<and>
           group r = group failing \<and> state r = DONE \<and>
           data r = RegressionD d \<and>
           fail_node d = node_id failing \<and> pass_node d = node_id passing \<and>
           data_arch (data failing) = Inr (RegressionData.arch d) \<and>
           data_defconfig (data failing) = Inr (RegressionData.defconfig d) \<and>
           data_config_full (data failing) = Inr (RegressionData.config_full d) \<and>
           data_compiler (data failing) = Inr (RegressionData.compiler d) \<and>
           data_platform (data failing) = Inr (RegressionData.platform d) \<and>
           data_kernel_revision (data failing) = Inr (failed_kernel_revision d)))
   \<and> (cmp_fields = pre @ field # post \<and> fields_agree failing passing pre \<and>
       attrgetter field failing = Inr a \<and> attrgetter field passing = Inr b \<and> a \<noteq> b \<longrightarrow>
         create_regression clk to_json failing passing as_dict =
           Inl (RuntimeError (node_id passing) (node_id failing) (FieldDiffers field a b)))"
proof (intro conjI impI)
  assume h: "fields_agree failing passing cmp_fields \<and>
    datetime_gt (created failing) (created passing) = Inr True \<and>
    result passing = Some PASS \<and> result failing = Some FAIL"
  then have "datetime_gt (created passing) (created failing) = Inr False"
    using datetime_gt_asym by blast
  from create_regression_builds [where clk = clk and to_json = to_json, OF _ this] h
  show "\<exists>r d. create_regression clk to_json failing passing False = Inr (AsObject r) \<and>
           pyclass r = CRegression \<and> kind r = ''regression'' \<and>
           Node.name r = Node.name failing \<and> path r = path failing \<and>
           group r = group failing \<and> state r = DONE \<and>
           data r = RegressionD d \<and>
           fail_node d = node_id failing \<and> pass_node d = node_id passing \<and>
           data_arch (data failing) = Inr (RegressionData.arch d) \<and>
           data_defconfig (data failing) = Inr (RegressionData.defconfig d) \<and>
           data_config_full (data failing) = Inr (RegressionData.config_full d) \<and>
           data_compiler (data failing) = Inr (RegressionData.compiler d) \<and>
           data_platform (data failing) = Inr (RegressionData.platform d) \<and>
           data_kernel_revision (data failing) = Inr (failed_kernel_revision d)"
    by blast
next
  assume h: "cmp_fields = pre @ field # post \<and> fields_agree failing passing pre \<and>
       attrgetter field failing = Inr a \<and> attrgetter field passing = Inr b \<and> a \<noteq> b"
  then have "compare_fields failing passing cmp_fields =
           Some (RuntimeError (node_id passing) (node_id failing) (FieldDiffers field a b))"
    using compare_fields_first_mismatch [of failing passing pre field a b post] by simp
  then show "create_regression clk to_json failing passing as_dict =
           Inl (RuntimeError (node_id passing) (node_id failing) (FieldDiffers field a b))"
    by (simp add: create_regression_def)
qed


lemma example_nodes_agree: "fields_agree example_fail_node example_pass_node cmp_fields"
  by (simp add: fields_agree_def cmp_fields_def attrgetter_def example_fail_node_def
      example_pass_node_def)

theorem create_regression_ok_witness:
  "fields_agree example_fail_node example_pass_node cmp_fields
   \<and> datetime_gt (created example_fail_node) (created example_pass_node) = Inr True
   \<and> result example_pass_node = Some PASS \<and> result example_fail_node = Some FAIL
   \<and> (\<exists>r d. create_regression example_clock (\<lambda>n. ()) example_fail_node example_pass_node False
              = Inr (AsObject r) \<and>
            Node.name r = ''kbuild-gcc-12-arm64'' \<and> state r = DONE \<and> data r = RegressionD d \<and>
            fail_node d = Some (Oid ''65a1b2c3d4e5f60718293a4c'') \<and>
            pass_node d = Some (Oid ''65a1b2c3d4e5f60718293a4b'') \<and>
            RegressionData.arch d = Some ''arm64'')
   \<and> cmp_fields = [''name''] @ ''group'' # drop 2 cmp_fields
   \<and> create_regression example_clock (\<lambda>n. ()) example_fail_node
         (example_pass_node\<lparr>group := Some ''other''\<rparr>) False
       = Inl (RuntimeError (Some (Oid ''65a1b2c3d4e5f60718293a4b''))
                (Some (Oid ''65a1b2c3d4e5f60718293a4c''))
                (FieldDiffers ''group'' (FOptStr None) (FOptStr (Some ''other''))))"
proof -
  let ?P2 = "example_pass_node\<lparr>group := Some ''other''\<rparr>"
  have h1: "fields_agree example_fail_node example_pass_node cmp_fields"
    by (rule example_nodes_agree)
  have h2: "datetime_gt (created example_fail_node) (created example_pass_node) = Inr True"
    by (simp add: example_fail_node_def example_pass_node_def)
  have h3: "result example_pass_node = Some PASS" "result example_fail_node = Some FAIL"
    by (simp_all add: example_fail_node_def example_pass_node_def)
  have h4: "cmp_fields = [''name''] @ ''group'' # drop 2 cmp_fields"
    by (simp add: cmp_fields_def)
  have h5: "fields_agree example_fail_node ?P2 [''name'']"
    by (simp add: fields_agree_def attrgetter_def example_fail_node_def example_pass_node_def)
  have h6: "attrgetter ''group'' example_fail_node = Inr (FOptStr None)"
    "attrgetter ''group'' ?P2 = Inr (FOptStr (Some ''other''))"
    by (simp_all add: attrgetter_def example_fail_node_def example_pass_node_def)
  have ids: "node_id example_fail_node = Some (Oid ''65a1b2c3d4e5f60718293a4c'')"
    "node_id ?P2 = Some (Oid ''65a1b2c3d4e5f60718293a4b'')"
    "node_id example_pass_node = Some (Oid ''65a1b2c3d4e5f60718293a4b'')"
    "Node.name example_fail_node = ''kbuild-gcc-12-arm64''"
    "data_arch (data example_fail_node) = Inr (Some ''arm64'')"
    by (simp_all add: example_fail_node_def example_pass_node_def example_kbuild_data_def)
  have a: "\<exists>r d. create_regression example_clock (\<lambda>n. ()) example_fail_node example_pass_node False
              = Inr (AsObject r) \<and>
            Node.name r = ''kbuild-gcc-12-arm64'' \<and> state r = DONE \<and> data r = RegressionD d \<and>
            fail_node d = Some (Oid ''65a1b2c3d4e5f60718293a4c'') \<and>
            pass_node d = Some (Oid ''65a1b2c3d4e5f60718293a4b'') \<and>
            RegressionData.arch d = Some ''arm64''"
    using create_regression_ok
      [where failing = example_fail_node and passing = example_pass_node
         and clk = example_clock and to_json = "\<lambda>n. ()", THEN conjunct1] h1 h2 h3 ids
    by fastforce
  have b: "create_regression example_clock (\<lambda>n. ()) example_fail_node ?P2 False
       = Inl (RuntimeError (Some (Oid ''65a1b2c3d4e5f60718293a4b''))
                (Some (Oid ''65a1b2c3d4e5f60718293a4c''))
                (FieldDiffers ''group'' (FOptStr None) (FOptStr (Some ''other''))))"
    using create_regression_ok
      [where failing = example_fail_node and passing = ?P2 and pre = "[''name'']"
         and field = "''group''" and post = "drop 2 cmp_fields"
         and a = "FOptStr None" and b = "FOptStr (Some ''other'')"
         and clk = example_clock and to_json = "\<lambda>n. ()" and as_dict = False, THEN conjunct2]
      h4 h5 h6 ids
    by simp
  from h1 h2 h3 h4 a b show ?thesis by blast
qed

subsection \<open>The temporal check\<close>

lemma datetime_gt_error: "datetime_gt a b = Inl e \<Longrightarrow> e = TypeError"
  by (cases a; cases b; cases "utcoffset a"; cases "utcoffset b") auto

text \<open>
  When the nine fields agree, the guard \<open>pass_node.created > fail_node.created\<close> raises
  the temporal-ordering error exactly when the pass node's creation timestamp is
  strictly later than the fail node's.
\<close>

lemma create_regression_temporal_guard:
  assumes "fields_agree failing passing cmp_fields"
  shows "(create_regression clk to_json failing passing as_dict =
            Inl (RuntimeError (node_id passing) (node_id failing) FailBeforePass))
         = (datetime_gt (created passing) (created failing) = Inr True)"
proof -
  from fields_agree_data [OF assms] obtain r a d f c p where
    v: "data_kernel_revision (data failing) = Inr r" "data_arch (data failing) = Inr a"
       "data_defconfig (data failing) = Inr d" "data_config_full (data failing) = Inr f"
       "data_compiler (data failing) = Inr c" "data_platform (data failing) = Inr p"
    by blast
  have cmp: "compare_fields failing passing cmp_fields = None"
    using assms by (simp add: compare_fields_None_iff)
  show ?thesis
  proof (cases "datetime_gt (created passing) (created failing)")
    case (Inl e)
    then have "e = TypeError" by (rule datetime_gt_error)
    then show ?thesis using Inl by (simp add: create_regression_def cmp)
  next
    case (Inr later)
    then show ?thesis
      by (cases later) (simp_all add: create_regression_def cmp v Let_def)
  qed
qed

text \<open>
  C6 (the behaviour of the code at equal timestamps): the claim has \<open>create_regression\<close>
  fail with the temporal-ordering error whenever the pass node was not created strictly
  before the fail node, as the comment of the sanity checks says ("fail node must have
  run after pass_node"). For the two sample nodes with the pass node's \<open>created\<close> set to
  the fail node's, the nine fields agree, the two creation timestamps are equal, the
  results are PASS and FAIL, and \<open>create_regression\<close> raises nothing: it returns the
  Regression.
\<close>

theorem create_regression_equal_timestamps:
  "compare_fields example_fail_node
     (example_pass_node\<lparr>created := created example_fail_node\<rparr>) cmp_fields = None
   \<and> created (example_pass_node\<lparr>created := created example_fail_node\<rparr>)
       = created example_fail_node
   \<and> result (example_pass_node\<lparr>created := created example_fail_node\<rparr>) = Some PASS
   \<and> result example_fail_node = Some FAIL
   \<and> datetime_gt (created (example_pass_node\<lparr>created := created example_fail_node\<rparr>))
        (created example_fail_node) = Inr False
   \<and> (\<exists>r. create_regression example_clock (\<lambda>n. ()) example_fail_node
              (example_pass_node\<lparr>created := created example_fail_node\<rparr>) False
            = Inr (AsObject r) \<and> state r = DONE \<and> result r = Some FAIL)"
  by (simp add: cmp_fields_def attrgetter_def example_fail_node_def
      example_pass_node_def example_kbuild_data_def create_regression_def Let_def)

subsection \<open>A fresh regression is active\<close>

text \<open>
  C10: every Regression object that \<open>create_regression\<close> returns has result FAIL and an
  empty \<open>data.node_sequence\<close>.
\<close>

theorem create_regression_active:
  assumes "create_regression clk to_json failing passing as_dict = Inr (AsObject r)"
  shows "result r = Some FAIL \<and> (\<exists>d. data r = RegressionD d \<and> node_sequence d = Some [])"
proof -
  from assms have "compare_fields failing passing cmp_fields = None"
    by (auto simp: create_regression_def split: option.splits)
  then have "fields_agree failing passing cmp_fields" by (simp add: compare_fields_None_iff)
  from fields_agree_data [OF this] obtain rv a d f c p where
    v: "data_kernel_revision (data failing) = Inr rv" "data_arch (data failing) = Inr a"
       "data_defconfig (data failing) = Inr d" "data_config_full (data failing) = Inr f"
       "data_compiler (data failing) = Inr c" "data_platform (data failing) = Inr p"
    by blast
  from assms show ?thesis
    by (auto simp: create_regression_def v Let_def
        split: option.splits sum.splits bool.splits if_splits)
qed

theorem create_regression_active_witness:
  "\<exists>r d. create_regression example_clock (\<lambda>n. ()) example_fail_node example_pass_node False
            = Inr (AsObject r) \<and>
          result r = Some FAIL \<and> data r = RegressionD d \<and> node_sequence d = Some []"
proof -
  obtain r where r: "create_regression example_clock (\<lambda>n. ()) example_fail_node example_pass_node
      False = Inr (AsObject r)"
    by (simp add: cmp_fields_def attrgetter_def example_fail_node_def
      example_pass_node_def example_kbuild_data_def create_regression_def Let_def)
  from create_regression_active [OF r] r show ?thesis by blast
qed


subsection \<open>Dispatch on the kind\<close>

lemma find_kind:
  "submodel \<in> set (subclasses CNode) \<Longrightarrow>
     find (\<lambda>c. class_kind submodel = class_kind c) (subclasses CNode) = Some submodel"
  by (cases submodel) simp_all

lemma parse_node_obj_generic:
  "pyclass node = CNode \<Longrightarrow> submodel \<in> set (subclasses CNode) \<Longrightarrow>
     kind node = class_kind submodel \<Longrightarrow>
     parse_node_obj revalidate node = revalidate submodel node"
  using find_kind [of submodel] by (simp add: parse_node_obj_def)

lemma parse_node_obj_unsupported:
  assumes "\<forall>c\<in>set (subclasses CNode). kind node \<noteq> class_kind c"
  shows "parse_node_obj revalidate node = Inl (ValueError (UnsupportedNodeKind (kind node)))"
proof -
  have "find (\<lambda>c. kind node = class_kind c) (subclasses (pyclass node)) = None"
  proof (cases "pyclass node = CNode")
    case True
    then show ?thesis using assms by (simp add: find_None_iff)
  next
    case False
    then show ?thesis by (cases "pyclass node") simp_all
  qed
  then show ?thesis by (simp add: parse_node_obj_def)
qed

lemma model_validate_result:
  "model_validate V submodel node = Inr n \<Longrightarrow>
     pyclass n = submodel \<and> kind n = kind node \<and> Node.name n = Node.name node \<and>
     validate_data V submodel (data node) = Some (data n)"
  by (auto simp: model_validate_def split: if_splits option.splits)

lemma model_validate_error:
  "model_validate V submodel node = Inl e \<Longrightarrow> e = ValidationError"
  by (auto simp: model_validate_def split: if_splits option.splits)

lemma optional_field_Some:
  "optional_field doc key validate = Some x \<Longrightarrow>
     (map_of doc key = None \<longrightarrow> x = None) \<and>
     (\<forall>v. map_of doc key = Some v \<longrightarrow> (\<exists>y. validate v = Some y \<and> x = Some y))"
  by (auto simp: optional_field_def split: option.splits)

lemma revision_value_Some:
  "revision_value V v = Some r \<Longrightarrow> \<exists>rd. v = Dict rd \<and> revision_of V rd = Some r"
  by (cases v) auto

lemma validate_checkout_data_revision:
  assumes "validate_checkout_data V doc = Some d"
  shows "(map_of doc ''kernel_revision'' = None \<longrightarrow> CheckoutData.kernel_revision d = None) \<and>
         (\<forall>v. map_of doc ''kernel_revision'' = Some v \<longrightarrow>
            (\<exists>rd r. v = Dict rd \<and> revision_of V rd = Some r \<and>
                    CheckoutData.kernel_revision d = Some r))"
proof -
  from assms obtain x where
    x: "optional_field doc ''kernel_revision'' (revision_value V) = Some x"
    and d: "CheckoutData.kernel_revision d = x"
    by (auto simp: validate_checkout_data_def split: Option.bind_splits)
  from optional_field_Some [OF x] d show ?thesis
    using revision_value_Some by blast
qed

text \<open>
  C8 (amended): for every generic node (the input \<open>parse_node_obj\<close> is written for: an
  instance of \<open>Node\<close> itself) whose kind is the \<open>class_kind\<close> of a registered subclass,
  \<open>parse_node_obj\<close> returns the outcome of validating the node's document against that
  subclass: when the document validates, an entity of that subclass (a kind
  \<open>checkout\<close> yields a \<open>Checkout\<close> whose \<open>data.kernel_revision\<close> is the validated revision
  when the document gives one and \<open>None\<close> otherwise), and a \<open>ValidationError\<close> when it
  does not; for every node whose kind is the \<open>class_kind\<close> of no registered subclass,
  \<open>parse_node_obj\<close> raises the \<open>ValueError\<close> for an unsupported kind.
\<close>

theorem parse_node_obj_dispatch:
  "(pyclass node = CNode \<and> submodel \<in> set (subclasses CNode) \<and>
    kind node = class_kind submodel \<longrightarrow>
      parse_node_obj (model_validate V) node = model_validate V submodel node \<and>
      (parse_node_obj (model_validate V) node = Inl ValidationError \<or>
       (\<exists>n. parse_node_obj (model_validate V) node = Inr n \<and> pyclass n = submodel \<and>
            kind n = class_kind submodel \<and>
            validate_data V submodel (data node) = Some (data n))))
   \<and> (pyclass node = CNode \<and> kind node = ''checkout'' \<and> data node = DictData doc \<and>
       parse_node_obj (model_validate V) node = Inr n \<longrightarrow>
         pyclass n = CCheckout \<and>
         (\<exists>d. data n = CheckoutD d \<and>
            (map_of doc ''kernel_revision'' = None \<longrightarrow> CheckoutData.kernel_revision d = None) \<and>
            (\<forall>v. map_of doc ''kernel_revision'' = Some v \<longrightarrow>
               (\<exists>rd r. v = Dict rd \<and> revision_of V rd = Some r \<and>
                       CheckoutData.kernel_revision d = Some r))))
   \<and> ((\<forall>c\<in>set (subclasses CNode). kind node \<noteq> class_kind c) \<longrightarrow>
        parse_node_obj revalidate node = Inl (ValueError (UnsupportedNodeKind (kind node))))"
proof (intro conjI impI)
  assume h: "pyclass node = CNode \<and> submodel \<in> set (subclasses CNode) \<and>
    kind node = class_kind submodel"
  then show eq: "parse_node_obj (model_validate V) node = model_validate V submodel node"
    by (simp add: parse_node_obj_generic)
  show "parse_node_obj (model_validate V) node = Inl ValidationError \<or>
       (\<exists>n. parse_node_obj (model_validate V) node = Inr n \<and> pyclass n = submodel \<and>
            kind n = class_kind submodel \<and>
            validate_data V submodel (data node) = Some (data n))"
  proof (cases "model_validate V submodel node")
    case (Inl e)
    then show ?thesis using eq model_validate_error by simp
  next
    case (Inr n)
    then show ?thesis using eq h model_validate_result [OF Inr] by simp
  qed
next
  assume h: "pyclass node = CNode \<and> kind node = ''checkout'' \<and> data node = DictData doc \<and>
       parse_node_obj (model_validate V) node = Inr n"
  then have "parse_node_obj (model_validate V) node = model_validate V CCheckout node"
    by (intro parse_node_obj_generic) simp_all
  then have mv: "model_validate V CCheckout node = Inr n" using h by simp
  note r = model_validate_result [OF mv]
  then show "pyclass n = CCheckout" by simp
  from r h have "map_option CheckoutD (validate_checkout_data V doc) = Some (data n)"
    by simp
  then obtain d where d': "validate_checkout_data V doc = Some d" "CheckoutD d = data n"
    by auto
  then have d: "data n = CheckoutD d" "validate_checkout_data V doc = Some d"
    by simp_all
  from validate_checkout_data_revision [OF d(2)] d(1)
  show "\<exists>d. data n = CheckoutD d \<and>
            (map_of doc ''kernel_revision'' = None \<longrightarrow> CheckoutData.kernel_revision d = None) \<and>
            (\<forall>v. map_of doc ''kernel_revision'' = Some v \<longrightarrow>
               (\<exists>rd r. v = Dict rd \<and> revision_of V rd = Some r \<and>
                       CheckoutData.kernel_revision d = Some r))"
    by (rule_tac x = d in exI) simp
next
  assume "\<forall>c\<in>set (subclasses CNode). kind node \<noteq> class_kind c"
  then show "parse_node_obj revalidate node = Inl (ValueError (UnsupportedNodeKind (kind node)))"
    by (rule parse_node_obj_unsupported)
qed

lemma example_revision_validates:
  "revision_of example_validators example_revision_document = Some example_revision"
  by (simp add: example_validators_def example_revision_document_def example_revision_def)

lemma example_nodes_validate:
  "model_validate example_validators CCheckout example_generic_node = Inr example_checkout_node"
  "\<exists>n d. model_validate example_validators CCheckout example_revision_node = Inr n \<and>
         data n = CheckoutD d \<and> CheckoutData.kernel_revision d = Some example_revision"
  by (simp_all add: model_validate_def validate_checkout_data_def optional_field_def
      example_generic_node_def example_checkout_node_def example_revision_node_def
      example_revision_validates)

theorem parse_node_obj_dispatch_witness:
  "pyclass example_generic_node = CNode \<and> CCheckout \<in> set (subclasses CNode)
   \<and> kind example_generic_node = class_kind CCheckout
   \<and> parse_node_obj (model_validate example_validators) example_generic_node
       = Inr example_checkout_node
   \<and> pyclass example_checkout_node = CCheckout
   \<and> (\<exists>d. data example_checkout_node = CheckoutD d \<and> CheckoutData.kernel_revision d = None)
   \<and> (\<exists>n d. parse_node_obj (model_validate example_validators) example_revision_node = Inr n \<and>
         pyclass n = CCheckout \<and> data n = CheckoutD d \<and>
         CheckoutData.kernel_revision d = Some example_revision)
   \<and> parse_node_obj (model_validate example_validators) (example_generic_node\<lparr>kind := ''node''\<rparr>)
       = Inl (ValueError (UnsupportedNodeKind ''node''))"
proof -
  let ?N = "example_generic_node"
  let ?R = "example_revision_node"
  let ?M = "example_generic_node\<lparr>kind := ''node''\<rparr>"
  let ?V = "example_validators"
  have h1: "pyclass ?N = CNode" "CCheckout \<in> set (subclasses CNode)"
    "kind ?N = class_kind CCheckout"
    by (simp_all add: example_generic_node_def)
  have h1r: "pyclass ?R = CNode" "kind ?R = class_kind CCheckout" "kind ?R = ''checkout''"
    "data ?R = DictData [(''kernel_revision'', Dict example_revision_document)]"
    by (simp_all add: example_generic_node_def example_revision_node_def)
  have h2: "\<forall>c\<in>set (subclasses CNode). kind ?M \<noteq> class_kind c"
    by (simp add: example_generic_node_def)
  have a: "parse_node_obj (model_validate ?V) ?N = Inr example_checkout_node"
    using parse_node_obj_dispatch
            [where node = ?N and submodel = CCheckout and V = ?V, THEN conjunct1]
          h1 example_nodes_validate(1)
    by simp
  have a2: "pyclass example_checkout_node = CCheckout"
    "\<exists>d. data example_checkout_node = CheckoutD d \<and> CheckoutData.kernel_revision d = None"
    by (simp_all add: example_checkout_node_def)
  have "parse_node_obj (model_validate ?V) ?R = model_validate ?V CCheckout ?R"
    using parse_node_obj_dispatch
            [where node = ?R and submodel = CCheckout and V = ?V, THEN conjunct1]
          h1r h1(2)
    by simp
  then obtain n d where n: "parse_node_obj (model_validate ?V) ?R = Inr n"
    "data n = CheckoutD d" "CheckoutData.kernel_revision d = Some example_revision"
    using example_nodes_validate(2) by auto
  have "pyclass n = CCheckout"
    using parse_node_obj_dispatch
            [where node = ?R and V = ?V and n = n
               and doc = "[(''kernel_revision'', Dict example_revision_document)]",
             THEN conjunct2, THEN conjunct1]
          h1r n(1)
    by simp
  then have b: "\<exists>n d. parse_node_obj (model_validate ?V) ?R = Inr n \<and>
         pyclass n = CCheckout \<and> data n = CheckoutD d \<and>
         CheckoutData.kernel_revision d = Some example_revision"
    using n by blast
  have c: "parse_node_obj (model_validate ?V) ?M = Inl (ValueError (UnsupportedNodeKind (kind ?M)))"
    using parse_node_obj_dispatch
            [where node = ?M and revalidate = "model_validate ?V",
             THEN conjunct2, THEN conjunct2] h2
    by blast
  have d: "kind ?M = ''node''" by simp
  from h1 a a2 b c d show ?thesis by simp
qed

text \<open>
  A generic node of kind \<open>checkout\<close> need not validate as a \<open>Checkout\<close>: with a string
  where the revision is expected, or without data, \<open>parse_node_obj\<close> raises a
  \<open>ValidationError\<close> and returns no entity, whatever the validators that are parameters
  do.
\<close>

theorem parse_node_obj_dispatch_counterexample:
  "pyclass example_malformed_node = CNode
   \<and> kind example_malformed_node = class_kind CCheckout
   \<and> CCheckout \<in> set (subclasses CNode)
   \<and> (\<forall>V. parse_node_obj (model_validate V) example_malformed_node = Inl ValidationError)
   \<and> pyclass example_no_data_node = CNode
   \<and> kind example_no_data_node = class_kind CCheckout
   \<and> (\<forall>V. parse_node_obj (model_validate V) example_no_data_node = Inl ValidationError)"
  by (simp add: parse_node_obj_def model_validate_def validate_checkout_data_def
      optional_field_def example_generic_node_def example_malformed_node_def
      example_no_data_node_def)

end
